theory Spec2Isabelle
  imports Main
begin

section \<open>JavaScript strings and numbers\<close>

text \<open>
  The bot (src/index.js) is a single JavaScript module. Its texts are JavaScript strings,
  sequences of UTF-16 code units. The model uses HOL's \<open>string\<close>, whose characters are the
  code units \<open>0\<close> to \<open>255\<close> (ASCII and Latin-1): on every such text the functions below
  compute what the built-ins \<^verbatim>\<open>trim\<close>, \<^verbatim>\<open>split\<close>, \<^verbatim>\<open>join\<close>, \<^verbatim>\<open>toUpperCase\<close>, \<^verbatim>\<open>toLowerCase\<close>,
  \<^verbatim>\<open>replace\<close> and \<^verbatim>\<open>parseInt\<close> compute, and \<open>length\<close> is \<^verbatim>\<open>.length\<close>. The upper case of three
  of these code units lies outside the range, so \<open>toUpperCase\<close> returns code units as
  numbers. JavaScript numbers are doubles: a number that \<^verbatim>\<open>parseInt\<close> computes is rounded to
  the nearest double, or is an infinity.
\<close>

definition is_ws :: "char \<Rightarrow> bool" where
  \<comment> \<open>the members of WhiteSpace and LineTerminator below 256: TAB, LF, VT, FF, CR, SP and
      the no-break space U+00A0\<close>
  "is_ws c =
     (c \<in> set [CHR 0x09, CHR 0x0A, CHR 0x0B, CHR 0x0C, CHR 0x0D, CHR 0x20, CHR 0xA0])"

definition trimStart :: "string \<Rightarrow> string" where
  "trimStart s = dropWhile is_ws s"

definition trim :: "string \<Rightarrow> string" where
  "trim s = rev (dropWhile is_ws (rev (dropWhile is_ws s)))"

fun split :: "char \<Rightarrow> string \<Rightarrow> string list" where
  \<comment> \<open>\<^verbatim>\<open>s.split(sep)\<close> for a separator of one character; \<^verbatim>\<open>''.split(sep)\<close> is \<^verbatim>\<open>['']\<close>\<close>
  "split sep [] = [[]]"
| "split sep (c # cs) =
     (if c = sep then [] # split sep cs
      else (case split sep cs of p # ps \<Rightarrow> (c # p) # ps | [] \<Rightarrow> [[c]]))"

fun join :: "string \<Rightarrow> string list \<Rightarrow> string" where
  "join sep [] = []"
| "join sep [p] = p"
| "join sep (p # q # ps) = p @ sep @ join sep (q # ps)"

definition lower_letters :: string where
  "lower_letters = ''abcdefghijklmnopqrstuvwxyz''"

definition upper_letters :: string where
  "upper_letters = ''ABCDEFGHIJKLMNOPQRSTUVWXYZ''"

definition latin1_lower :: string where
  \<comment> \<open>U+00E0 to U+00FE without the division sign U+00F7\<close>
  "latin1_lower =
     [CHR 0xE0, CHR 0xE1, CHR 0xE2, CHR 0xE3, CHR 0xE4, CHR 0xE5, CHR 0xE6, CHR 0xE7,
      CHR 0xE8, CHR 0xE9, CHR 0xEA, CHR 0xEB, CHR 0xEC, CHR 0xED, CHR 0xEE, CHR 0xEF,
      CHR 0xF0, CHR 0xF1, CHR 0xF2, CHR 0xF3, CHR 0xF4, CHR 0xF5, CHR 0xF6,
      CHR 0xF8, CHR 0xF9, CHR 0xFA, CHR 0xFB, CHR 0xFC, CHR 0xFD, CHR 0xFE]"

definition latin1_upper :: string where
  \<comment> \<open>U+00C0 to U+00DE without the multiplication sign U+00D7\<close>
  "latin1_upper =
     [CHR 0xC0, CHR 0xC1, CHR 0xC2, CHR 0xC3, CHR 0xC4, CHR 0xC5, CHR 0xC6, CHR 0xC7,
      CHR 0xC8, CHR 0xC9, CHR 0xCA, CHR 0xCB, CHR 0xCC, CHR 0xCD, CHR 0xCE, CHR 0xCF,
      CHR 0xD0, CHR 0xD1, CHR 0xD2, CHR 0xD3, CHR 0xD4, CHR 0xD5, CHR 0xD6,
      CHR 0xD8, CHR 0xD9, CHR 0xDA, CHR 0xDB, CHR 0xDC, CHR 0xDD, CHR 0xDE]"

definition code_units :: "string \<Rightarrow> nat list" where
  "code_units s = map of_char s"

definition upper_units :: "char \<Rightarrow> nat list" where
  \<comment> \<open>the upper case of one code unit: U+00DF (sharp s) gives \<^verbatim>\<open>SS\<close>, U+00B5 (micro sign)
      gives U+039C, U+00FF gives U+0178\<close>
  "upper_units c =
     (if c = CHR 0xDF then [83, 83]
      else if c = CHR 0xB5 then [924]
      else if c = CHR 0xFF then [376]
      else
        case map_of (zip (lower_letters @ latin1_lower) (upper_letters @ latin1_upper)) c of
          Some u \<Rightarrow> [of_char u]
        | None \<Rightarrow> [of_char c])"

definition toUpperCase :: "string \<Rightarrow> nat list" where
  "toUpperCase s = concat (map upper_units s)"

definition toLowerCase :: "string \<Rightarrow> string" where
  "toLowerCase s =
     map (\<lambda>c. case map_of (zip (upper_letters @ latin1_upper) (lower_letters @ latin1_lower)) c of
                Some l \<Rightarrow> l
              | None \<Rightarrow> c) s"

fun find_sub :: "string \<Rightarrow> string \<Rightarrow> (string \<times> string) option" where
  \<comment> \<open>the text before and the text after the first occurrence of the pattern\<close>
  "find_sub pat [] = (if pat = [] then Some ([], []) else None)"
| "find_sub pat (c # cs) =
     (if take (length pat) (c # cs) = pat then Some ([], drop (length pat) (c # cs))
      else map_option (\<lambda>(b, a). (c # b, a)) (find_sub pat cs))"

fun get_substitution :: "string \<Rightarrow> string \<Rightarrow> string \<Rightarrow> string \<Rightarrow> string" where
  \<comment> \<open>the \<^verbatim>\<open>$\<close> patterns of a replacement string, for a string pattern (no capture groups):
      \<^verbatim>\<open>$$\<close>, \<^verbatim>\<open>$&\<close>, \<^verbatim>\<open>$`\<close> and \<^verbatim>\<open>$'\<close>\<close>
  "get_substitution m b a [] = []"
| "get_substitution m b a [c] = [c]"
| "get_substitution m b a (c # d # r) =
     (if c = CHR ''$'' \<and> d = CHR ''$'' then CHR ''$'' # get_substitution m b a r
      else if c = CHR ''$'' \<and> d = CHR ''&'' then m @ get_substitution m b a r
      else if c = CHR ''$'' \<and> d = CHR 0x60 then b @ get_substitution m b a r
      else if c = CHR ''$'' \<and> d = CHR 0x27 then a @ get_substitution m b a r
      else c # get_substitution m b a (d # r))"

definition replace :: "string \<Rightarrow> string \<Rightarrow> string \<Rightarrow> string" where
  \<comment> \<open>\<^verbatim>\<open>s.replace(pat, repl)\<close> with a string pattern: the first occurrence only\<close>
  "replace pat repl s =
     (case find_sub pat s of
        None \<Rightarrow> s
      | Some (b, a) \<Rightarrow> b @ get_substitution pat b a repl @ a)"

datatype js_number = NaN | Num int | Infinity | NegInfinity

fun bit_length :: "nat \<Rightarrow> nat" where
  "bit_length n = (if n = 0 then 0 else Suc (bit_length (n div 2)))"

declare bit_length.simps [simp del]

definition to_double :: "nat \<Rightarrow> nat option" where
  \<comment> \<open>the double nearest to a non-negative integer, ties to the even significand of 53 bits;
      \<open>None\<close> when the integer rounds to infinity\<close>
  "to_double n =
     (if n < 2 ^ 53 then Some n
      else
        let e = bit_length n - 53;
            q = n div 2 ^ e;
            r = n mod 2 ^ e;
            q' = (if 2 ^ (e - 1) < r \<or> (r = 2 ^ (e - 1) \<and> odd q) then q + 1 else q)
        in if 2 ^ 1024 \<le> q' * 2 ^ e then None else Some (q' * 2 ^ e))"

definition number_of :: "bool \<Rightarrow> nat \<Rightarrow> js_number" where
  \<comment> \<open>the Number for a sign and a magnitude\<close>
  "number_of neg n =
     (case to_double n of
        None \<Rightarrow> if neg then NegInfinity else Infinity
      | Some m \<Rightarrow> Num (if neg then - int m else int m))"

definition digit_val :: "char \<Rightarrow> nat option" where
  \<comment> \<open>the value of a digit: \<open>0\<close> to \<open>9\<close>, then the letters in either case for \<open>10\<close> to \<open>35\<close>\<close>
  "digit_val c =
     map_of (zip (''0123456789'' @ lower_letters @ upper_letters)
                 ([0, 1, 2, 3, 4, 5, 6, 7, 8, 9,
                   10, 11, 12, 13, 14, 15, 16, 17, 18, 19, 20, 21, 22,
                   23, 24, 25, 26, 27, 28, 29, 30, 31, 32, 33, 34, 35,
                   10, 11, 12, 13, 14, 15, 16, 17, 18, 19, 20, 21, 22,
                   23, 24, 25, 26, 27, 28, 29, 30, 31, 32, 33, 34, 35])) c"

definition is_digit :: "nat \<Rightarrow> char \<Rightarrow> bool" where
  "is_digit R c = (case digit_val c of Some v \<Rightarrow> v < R | None \<Rightarrow> False)"

definition digits_value :: "nat \<Rightarrow> string \<Rightarrow> nat" where
  "digits_value R Z = foldl (\<lambda>acc c. acc * R + (case digit_val c of Some v \<Rightarrow> v | None \<Rightarrow> 0)) 0 Z"

definition parseInt :: "string \<Rightarrow> nat \<Rightarrow> js_number" where
  \<comment> \<open>\<^verbatim>\<open>parseInt(str, radix)\<close>; radix \<open>0\<close> stands for an omitted radix. The digits are
      evaluated exactly and the result rounded once, which ECMAScript prescribes up to 20
      significant digits and allows beyond\<close>
  "parseInt str radix =
     (let s0 = trimStart str;
          neg = (case s0 of c # _ \<Rightarrow> c = CHR ''-'' | [] \<Rightarrow> False);
          s1 = (case s0 of c # r \<Rightarrow> if c = CHR ''+'' \<or> c = CHR ''-'' then r else s0 | [] \<Rightarrow> s0);
          hex = ((radix = 0 \<or> radix = 16) \<and> (take 2 s1 = ''0x'' \<or> take 2 s1 = ''0X''));
          R = (if hex then 16 else if radix = 0 then 10 else radix);
          s2 = (if hex then drop 2 s1 else s1);
          Z = takeWhile (is_digit R) s2
      in if radix \<noteq> 0 \<and> (radix < 2 \<or> 36 < radix) then NaN
         else if Z = [] then NaN
         else number_of neg (digits_value R Z))"

definition isNaN :: "js_number \<Rightarrow> bool" where
  "isNaN x = (x = NaN)"

fun toString :: "nat \<Rightarrow> string" where
  \<comment> \<open>\<^verbatim>\<open>n.toString()\<close> of a non-negative integer\<close>
  "toString n =
     (if n < 10 then [''0123456789'' ! n]
      else toString (n div 10) @ [''0123456789'' ! (n mod 10)])"

declare toString.simps [simp del]

definition truthy :: "string option \<Rightarrow> bool" where
  \<comment> \<open>an optional string in a condition: \<^verbatim>\<open>undefined\<close>, \<^verbatim>\<open>null\<close> and \<^verbatim>\<open>''\<close> are falsy\<close>
  "truthy s = (case s of None \<Rightarrow> False | Some t \<Rightarrow> t \<noteq> [])"

definition or_empty :: "string option \<Rightarrow> string" where
  \<comment> \<open>the text of a truthy optional string\<close>
  "or_empty s = (case s of None \<Rightarrow> [] | Some t \<Rightarrow> t)"

section \<open>The outside world\<close>

type_synonym chat_id = int
type_synonym user_id = js_number   \<comment> \<open>a Number: from the platform, or from \<^verbatim>\<open>parseInt\<close> in \<^verbatim>\<open>/unmute\<close>\<close>
type_synonym message_id = int

datatype error = Error

datatype redis_key =
    Group_simple_rules chat_id    \<comment> \<open>\<^verbatim>\<open>group_simple_rules:${chatId}\<close>\<close>
  | Group_rules_created chat_id   \<comment> \<open>\<^verbatim>\<open>group_rules_created:${chatId}\<close>\<close>

record member =
  status :: string
  member_username :: "string option"
  member_first_name :: "string option"

datatype content_part =
    TextPart string         \<comment> \<open>\<^verbatim>\<open>{ type: 'text', text }\<close>\<close>
  | ImageUrlPart string     \<comment> \<open>\<^verbatim>\<open>{ type: 'image_url', ... }\<close>: the data URL of the given image bytes\<close>

datatype message_content = PlainText string | Parts "content_part list"

record chat_message =
  role :: string
  msg_content :: message_content

datatype restriction =
    AllowSending   \<comment> \<open>\<^verbatim>\<open>until_date: false\<close>, every permission \<^verbatim>\<open>true\<close> (line 178)\<close>
  | MuteForever    \<comment> \<open>\<^verbatim>\<open>until_date: 0\<close>, every permission \<^verbatim>\<open>false\<close> (line 284)\<close>

datatype unmute_display =
    UserIdOnly user_id              \<comment> \<open>\<^verbatim>\<open>User ID: ${userId}\<close>\<close>
  | AtUsername string user_id       \<comment> \<open>\<^verbatim>\<open>@${username} (ID: ${userId})\<close>\<close>
  | FirstName string user_id        \<comment> \<open>\<^verbatim>\<open>${first_name} (ID: ${userId})\<close>\<close>

datatype user_info = UserInfo string user_id   \<comment> \<open>\<^verbatim>\<open>${userDisplay} (ID: ${userId})\<close>\<close>

text \<open>The fixed texts the bot sends, one constructor for each template of the source.\<close>

datatype notice =
    GroupsOnly                           \<comment> \<open>This command is for groups only.\<close>
  | NoRulesSet                           \<comment> \<open>No custom rules set for this group. Use /rules set ...\<close>
  | CurrentRules string                  \<comment> \<open>Current rules: ...\<close>
  | OnlyAdminsRules                      \<comment> \<open>Only admins or authorized special users can set or reset rules.\<close>
  | RulesSetUsage                        \<comment> \<open>Usage: /rules set ...\<close>
  | RulesSet string                      \<comment> \<open>Custom rules set: ...\<close>
  | RulesSetFailed                       \<comment> \<open>Failed to set rules. Check length (min 20 chars) and try again.\<close>
  | RulesReset                           \<comment> \<open>Custom rules reset. ...\<close>
  | RulesResetFailed                     \<comment> \<open>Failed to reset rules. Try again.\<close>
  | InvalidSubcommand                    \<comment> \<open>Invalid subcommand. Use: ...\<close>
  | UnmuteUsage                          \<comment> \<open>Usage: /unmute <user_id> ...\<close>
  | OnlyAdminsUnmute                     \<comment> \<open>Only admins or authorized special users can unmute users.\<close>
  | Unmuted unmute_display               \<comment> \<open>... unmuted successfully.\<close>
  | UnmuteFailed user_id                 \<comment> \<open>Failed to unmute user ...\<close>
  | ReplyNeeded                          \<comment> \<open>Please reply to a message with /report ...\<close>
  | NothingToAnalyze                     \<comment> \<open>The replied message has no text or photo to analyze.\<close>
  | ModerationSkipped user_info          \<comment> \<open>This user (...) is an admin or authorized special user. Moderation actions skipped.\<close>
  | Analyzing                            \<comment> \<open>Analyzing content...\<close>
  | NoRulesForReport                     \<comment> \<open>No custom rules set for this group. Admins, use /rules set first.\<close>
  | PredatesRules                        \<comment> \<open>This message was sent before the rules were created. ...\<close>
  | AnalysisFailed                       \<comment> \<open>Analysis failed. Check rules or try again.\<close>
  | ViolationDetected string             \<comment> \<open>Violation detected: ${reason}\<close>
  | AllGood string                       \<comment> \<open>All good: ${reason}\<close>
  | MutedPermanently user_info string    \<comment> \<open>User ... muted permanently: ${reason} (Admins can use /unmute ...)\<close>
  | ActionFailed user_info string        \<comment> \<open>Violation detected for ..., but action failed ... Reason: ${reason}\<close>

text \<open>Every call the bot makes to the store, the chat platform and the inference endpoint.\<close>

datatype call =
    RedisGet redis_key
  | RedisSet redis_key string
  | RedisDel redis_key
  | GetChatMember chat_id user_id
  | Reply notice                               \<comment> \<open>\<^verbatim>\<open>ctx.reply\<close>\<close>
  | EditMessageText notice                     \<comment> \<open>edits the "Analyzing content..." message\<close>
  | DeleteMessage chat_id message_id
  | RestrictChatMember chat_id user_id restriction
  | GetFile string
  | DownloadFile string                        \<comment> \<open>\<^verbatim>\<open>axios.get\<close> of the file at the given path\<close>
  | HfPost "chat_message list"                 \<comment> \<open>\<^verbatim>\<open>axios.post\<close> to the inference endpoint\<close>

text \<open>
  The environment decides what the outside world answers. \<open>rejects\<close> says which store
  commands and which platform calls made for their effect (reply, edit, delete, restrict)
  throw; a handler never makes the same such call twice, so a predicate on the call covers
  every combination of failures within one run. A membership lookup, a file lookup, a
  download and the inference request return a value or throw (\<open>Inl\<close>); for the inference
  request the value is \<^verbatim>\<open>data.choices?.[0]?.message?.content\<close>, \<open>None\<close> when it is missing.
  \<open>now_ms\<close> is \<^verbatim>\<open>Date.now()\<close>, a time value (at most \<open>8.64 * 10 ^ 15\<close>, so that the seconds
  written by \<open>setCustomRules\<close> are exact and printed as plain decimal digits). The world is
  the store's content and the calls made so far.
\<close>

record env =
  rejects :: "call \<Rightarrow> bool"
  chat_member :: "chat_id \<Rightarrow> user_id \<Rightarrow> error + member"
  file_path :: "string \<Rightarrow> error + string"
  file_data :: "string \<Rightarrow> error + string"
  hf_response :: "chat_message list \<Rightarrow> error + string option"
  now_ms :: nat

record world =
  kv :: "redis_key \<rightharpoonup> string"
  trace :: "call list"

definition emit :: "call \<Rightarrow> world \<Rightarrow> world" where
  "emit c w = w\<lparr>trace := trace w @ [c]\<rparr>"

definition new_calls :: "world \<Rightarrow> world \<Rightarrow> call list" where
  \<comment> \<open>the calls made on the way from the first world to the second\<close>
  "new_calls w w' = drop (length (trace w)) (trace w')"

fun is_inference :: "call \<Rightarrow> bool" where
  "is_inference (HfPost _) = True"
| "is_inference _ = False"

fun is_store_write :: "call \<Rightarrow> bool" where
  "is_store_write (RedisSet _ _) = True"
| "is_store_write (RedisDel _) = True"
| "is_store_write _ = False"

fun is_enforcement :: "call \<Rightarrow> bool" where
  "is_enforcement (DeleteMessage _ _) = True"
| "is_enforcement (RestrictChatMember _ _ _) = True"
| "is_enforcement _ = False"

definition redis_get :: "env \<Rightarrow> redis_key \<Rightarrow> world \<Rightarrow> world \<times> (error + string option)" where
  "redis_get e k w =
     (emit (RedisGet k) w, if rejects e (RedisGet k) then Inl Error else Inr (kv w k))"

definition redis_set :: "env \<Rightarrow> redis_key \<Rightarrow> string \<Rightarrow> world \<Rightarrow> world \<times> (error + unit)" where
  "redis_set e k v w =
     (if rejects e (RedisSet k v) then (emit (RedisSet k v) w, Inl Error)
      else (emit (RedisSet k v) (w\<lparr>kv := (kv w)(k \<mapsto> v)\<rparr>), Inr ()))"

definition redis_del :: "env \<Rightarrow> redis_key \<Rightarrow> world \<Rightarrow> world \<times> (error + unit)" where
  "redis_del e k w =
     (if rejects e (RedisDel k) then (emit (RedisDel k) w, Inl Error)
      else (emit (RedisDel k) (w\<lparr>kv := (kv w)(k := None)\<rparr>), Inr ()))"

definition telegram :: "env \<Rightarrow> call \<Rightarrow> world \<Rightarrow> world \<times> (error + unit)" where
  \<comment> \<open>a platform call made for its effect: reply, edit, delete, restrict\<close>
  "telegram e c w = (emit c w, if rejects e c then Inl Error else Inr ())"

definition getChatMember :: "env \<Rightarrow> chat_id \<Rightarrow> user_id \<Rightarrow> world \<Rightarrow> world \<times> (error + member)" where
  "getChatMember e chatId userId w = (emit (GetChatMember chatId userId) w, chat_member e chatId userId)"

section \<open>Inference client (lines 31 to 57)\<close>

record verdict =
  violates :: bool
  reason :: string

definition parse_content :: "string option \<Rightarrow> verdict" where
  \<comment> \<open>lines 43 to 53; the argument is \<^verbatim>\<open>data.choices?.[0]?.message?.content\<close>\<close>
  "parse_content c =
     (case map_option trim c of
        None \<Rightarrow> \<lparr>violates = False, reason = ''No analysis response''\<rparr>
      | Some content \<Rightarrow>
          if content = [] then \<lparr>violates = False, reason = ''No analysis response''\<rparr>
          else
            let parts = filter (\<lambda>p. p \<noteq> []) (map trim (split (CHR 0x0A) content));
                decision = (case parts of [] \<Rightarrow> None | p # _ \<Rightarrow> Some (toUpperCase p));
                joined = join '' '' (drop 1 parts);
                reason' = (if joined = [] then ''Unspecified'' else joined)
            in \<lparr>violates = (decision = Some (code_units ''YES'')), reason = reason'\<rparr>)"

definition callHuggingFace :: "env \<Rightarrow> chat_message list \<Rightarrow> world \<Rightarrow> world \<times> verdict" where
  "callHuggingFace e messages w =
     (emit (HfPost messages) w,
      case hf_response e messages of
        Inl _ \<Rightarrow> \<lparr>violates = False, reason = ''Analysis unavailable''\<rparr>
      | Inr c \<Rightarrow> parse_content c)"

section \<open>Rules store adapter and prompt builder (lines 59 to 91)\<close>

definition PROMPT_TEMPLATE :: string where
  \<open>PROMPT_TEMPLATE = ''You are a strict Telegram group moderator. Your task is to analyze user messages or images for violations of the EXACT group rules listed below. ONLY consider these rules: {RULES}. Do not add, assume, or reference any other rules from your training data or external knowledge. First, verify step-by-step: 1) List each rule briefly. 2) Check if the content matches any rule exactly. 3) Decide YES only if there is a direct violation. Respond only with "YES" if the message/image violates any rule, followed by a brief explanation on a new line (reference the specific rule violated). Respond with "NO" if it does not violate any rules, followed by a brief reason on a new line. Keep responses concise. Do not repeat or quote the message/image content in your explanation to avoid re-sharing sensitive material.''\<close>

definition getSimpleRules :: "env \<Rightarrow> chat_id \<Rightarrow> world \<Rightarrow> world \<times> string option" where
  "getSimpleRules e chatId w =
     (case redis_get e (Group_simple_rules chatId) w of
        (w', Inl _) \<Rightarrow> (w', None)
      | (w', Inr simpleRules) \<Rightarrow> (w', if truthy simpleRules then simpleRules else None))"

definition getRulesCreatedDate :: "env \<Rightarrow> chat_id \<Rightarrow> world \<Rightarrow> world \<times> js_number option" where
  \<comment> \<open>\<open>None\<close> is \<^verbatim>\<open>null\<close>; a stored text that is no number gives \<open>Some NaN\<close>\<close>
  "getRulesCreatedDate e chatId w =
     (case redis_get e (Group_rules_created chatId) w of
        (w', Inl _) \<Rightarrow> (w', None)
      | (w', Inr createdDate) \<Rightarrow>
          (w', case createdDate of
                 None \<Rightarrow> None
               | Some s \<Rightarrow> if s \<noteq> [] then Some (parseInt s 10) else None))"

definition buildFullPrompt :: "string \<Rightarrow> string" where
  "buildFullPrompt rules = replace ''{RULES}'' (trim rules) PROMPT_TEMPLATE"

definition setCustomRules :: "env \<Rightarrow> chat_id \<Rightarrow> string \<Rightarrow> world \<Rightarrow> world \<times> string option" where
  \<comment> \<open>\<open>None\<close> is the result \<^verbatim>\<open>false\<close> of the \<^verbatim>\<open>catch\<close> branch\<close>
  "setCustomRules e chatId rules w =
     (if length rules < 20 then (w, None)
      else
        let nowInSeconds = now_ms e div 1000 in
        case redis_set e (Group_simple_rules chatId) (trim rules) w of
          (w1, Inl _) \<Rightarrow> (w1, None)
        | (w1, Inr _) \<Rightarrow>
            (case redis_set e (Group_rules_created chatId) (toString nowInSeconds) w1 of
               (w2, Inl _) \<Rightarrow> (w2, None)
             | (w2, Inr _) \<Rightarrow> (w2, Some (buildFullPrompt rules))))"

definition resetRules :: "env \<Rightarrow> chat_id \<Rightarrow> world \<Rightarrow> world \<times> bool" where
  \<comment> \<open>the two deletions of \<^verbatim>\<open>/rules reset\<close> (lines 157 and 158); \<open>False\<close> when one throws\<close>
  "resetRules e chatId w =
     (case redis_del e (Group_simple_rules chatId) w of
        (w1, Inl _) \<Rightarrow> (w1, False)
      | (w1, Inr _) \<Rightarrow>
          (case redis_del e (Group_rules_created chatId) w1 of
             (w2, Inl _) \<Rightarrow> (w2, False)
           | (w2, Inr _) \<Rightarrow> (w2, True)))"

section \<open>Authorization check (lines 11 and 93 to 102)\<close>

definition SPECIAL_ANONYMOUS_IDS :: "user_id list" where
  "SPECIAL_ANONYMOUS_IDS = [Num 1087968824, Num 136817688]"

definition is_admin_status :: "string \<Rightarrow> bool" where
  \<comment> \<open>\<^verbatim>\<open>['administrator', 'creator'].includes(member.status)\<close>\<close>
  "is_admin_status s = (s \<in> set [''administrator'', ''creator''])"

definition isAuthorizedUser :: "env \<Rightarrow> user_id \<Rightarrow> chat_id \<Rightarrow> world \<Rightarrow> world \<times> bool" where
  \<comment> \<open>the first argument of the source is \<^verbatim>\<open>ctx\<close>, of which only \<^verbatim>\<open>ctx.from.id\<close> is read\<close>
  "isAuthorizedUser e userId chatId w =
     (if userId \<in> set SPECIAL_ANONYMOUS_IDS then (w, True)
      else
        case getChatMember e chatId userId w of
          (w', Inl _) \<Rightarrow> (w', False)
        | (w', Inr member) \<Rightarrow> (w', is_admin_status (status member)))"

section \<open>Command handlers (lines 132 to 299)\<close>

text \<open>
  The handlers registered with \<^verbatim>\<open>bot.command\<close> are anonymous in the source; here they are
  \<open>rules_command\<close>, \<open>unmute_command\<close> and \<open>report_command\<close>.
\<close>

record sender =
  sender_id :: user_id
  first_name :: "string option"
  username :: "string option"

record replied_message =
  msg_from :: sender
  message_id :: message_id
  msg_text :: "string option"
  caption :: "string option"
  photo :: "string list option"                   \<comment> \<open>the \<^verbatim>\<open>file_id\<close> of each size\<close>
  inline_keyboard :: "string list list option"    \<comment> \<open>the text of each button of each row\<close>
  msg_date :: nat                                 \<comment> \<open>Unix time; the platform sends a positive number\<close>

record ctx =
  chat_type :: string
  chat :: chat_id
  from_id :: user_id
  message_text :: string
  reply_to_message :: "replied_message option"

datatype outcome = Done | Thrown

definition reply :: "env \<Rightarrow> notice \<Rightarrow> world \<Rightarrow> world \<times> outcome" where
  \<comment> \<open>\<^verbatim>\<open>return ctx.reply(...)\<close>, or \<^verbatim>\<open>await ctx.reply(...)\<close> as a handler's last statement\<close>
  "reply e n w =
     (case telegram e (Reply n) w of
        (w', Inl _) \<Rightarrow> (w', Thrown)
      | (w', Inr _) \<Rightarrow> (w', Done))"

definition editMessageText :: "env \<Rightarrow> notice \<Rightarrow> world \<Rightarrow> world \<times> outcome" where
  "editMessageText e n w =
     (case telegram e (EditMessageText n) w of
        (w', Inl _) \<Rightarrow> (w', Thrown)
      | (w', Inr _) \<Rightarrow> (w', Done))"

definition rules_args :: "string \<Rightarrow> string list" where
  \<comment> \<open>\<^verbatim>\<open>args\<close> (line 135)\<close>
  "rules_args txt = split (CHR '' '') (trim (replace ''/rules'' [] txt))"

definition rules_set :: "env \<Rightarrow> chat_id \<Rightarrow> string list \<Rightarrow> world \<Rightarrow> world \<times> outcome" where
  \<comment> \<open>the branch of \<^verbatim>\<open>/rules set\<close> (lines 145 to 153)\<close>
  "rules_set e chatId args w =
     (let rulesText = trim (join '' '' (drop 1 args)) in
      if rulesText = [] then reply e RulesSetUsage w
      else
        case setCustomRules e chatId rulesText w of
          (w1, Some fullPrompt) \<Rightarrow> reply e (RulesSet rulesText) w1
        | (w1, None) \<Rightarrow> reply e RulesSetFailed w1)"

definition rules_reset :: "env \<Rightarrow> chat_id \<Rightarrow> world \<Rightarrow> world \<times> outcome" where
  \<comment> \<open>the branch of \<^verbatim>\<open>/rules reset\<close> (lines 156 to 163)\<close>
  "rules_reset e chatId w =
     (case resetRules e chatId w of
        (w1, False) \<Rightarrow> reply e RulesResetFailed w1
      | (w1, True) \<Rightarrow>
          (case telegram e (Reply RulesReset) w1 of
             (w2, Inl _) \<Rightarrow> reply e RulesResetFailed w2
           | (w2, Inr _) \<Rightarrow> (w2, Done)))"

definition rules_command :: "env \<Rightarrow> ctx \<Rightarrow> world \<Rightarrow> world \<times> outcome" where
  "rules_command e c w =
     (if chat_type c \<noteq> ''supergroup'' then reply e GroupsOnly w
      else
        let chatId = chat c;
            args = rules_args (message_text c);
            subcommand = (case args of [] \<Rightarrow> None | a # _ \<Rightarrow> Some (toLowerCase a))
        in
        if \<not> truthy subcommand then
          (case getSimpleRules e chatId w of
             (w1, None) \<Rightarrow> reply e NoRulesSet w1
           | (w1, Some simpleRules) \<Rightarrow> reply e (CurrentRules simpleRules) w1)
        else
          (case isAuthorizedUser e (from_id c) chatId w of (w1, authorized) \<Rightarrow>
           if \<not> authorized \<and> (subcommand = Some ''set'' \<or> subcommand = Some ''reset'')
           then reply e OnlyAdminsRules w1
           else if subcommand = Some ''set'' then rules_set e chatId args w1
           else if subcommand = Some ''reset'' then rules_reset e chatId w1
           else reply e InvalidSubcommand w1))"

definition unmute_display_of :: "user_id \<Rightarrow> error + member \<Rightarrow> unmute_display" where
  \<comment> \<open>\<^verbatim>\<open>userDisplay\<close> (lines 189 to 194)\<close>
  "unmute_display_of userId m =
     (case m of
        Inl _ \<Rightarrow> UserIdOnly userId
      | Inr member \<Rightarrow>
          if truthy (member_username member)
          then AtUsername (or_empty (member_username member)) userId
          else if truthy (member_first_name member)
          then FirstName (or_empty (member_first_name member)) userId
          else UserIdOnly userId)"

definition unmute_arg :: "string \<Rightarrow> string option" where
  \<comment> \<open>\<^verbatim>\<open>userIdStr\<close> (lines 171 and 172)\<close>
  "unmute_arg txt =
     (let args = split (CHR '' '') (trim (replace ''/unmute'' [] txt))
      in case args of [] \<Rightarrow> None | a # _ \<Rightarrow> Some (trim a))"

definition unmute_command :: "env \<Rightarrow> ctx \<Rightarrow> world \<Rightarrow> world \<times> outcome" where
  "unmute_command e c w =
     (if chat_type c \<noteq> ''supergroup'' then reply e GroupsOnly w
      else
        let chatId = chat c in
        (case unmute_arg (message_text c) of
           None \<Rightarrow> reply e UnmuteUsage w
         | Some userIdStr \<Rightarrow>
             if userIdStr = [] \<or> isNaN (parseInt userIdStr 0) then reply e UnmuteUsage w
             else
               let userId = parseInt userIdStr 0 in
               (case isAuthorizedUser e (from_id c) chatId w of (w1, authorized) \<Rightarrow>
                if \<not> authorized then reply e OnlyAdminsUnmute w1
                else
                  (case telegram e (RestrictChatMember chatId userId AllowSending) w1 of
                     (w2, Inl _) \<Rightarrow> reply e (UnmuteFailed userId) w2
                   | (w2, Inr _) \<Rightarrow>
                       (case getChatMember e chatId userId w2 of (w3, m) \<Rightarrow>
                        (case telegram e (Reply (Unmuted (unmute_display_of userId m))) w3 of
                           (w4, Inl _) \<Rightarrow> reply e (UnmuteFailed userId) w4
                         | (w4, Inr _) \<Rightarrow> (w4, Done)))))))"

definition reported_user_authorized :: "env \<Rightarrow> chat_id \<Rightarrow> user_id \<Rightarrow> world \<Rightarrow> world \<times> bool" where
  \<comment> \<open>\<^verbatim>\<open>isReportedUserAuthorized\<close> (lines 211 to 219)\<close>
  "reported_user_authorized e chatId userId w =
     (if userId \<in> set SPECIAL_ANONYMOUS_IDS then (w, True)
      else
        case getChatMember e chatId userId w of
          (w', Inl _) \<Rightarrow> (w', False)
        | (w', Inr member) \<Rightarrow> (w', is_admin_status (status member)))"

definition markup_text :: "string list list option \<Rightarrow> string" where
  \<comment> \<open>\<^verbatim>\<open>markupText\<close> (lines 222 to 237)\<close>
  \<open>markup_text keyboard =
     (case keyboard of
        None \<Rightarrow> []
      | Some rows \<Rightarrow>
          let buttons = filter (\<lambda>t. t \<noteq> []) (concat rows) in
          if buttons \<noteq> []
          then '' The message includes inline keyboard buttons with the following texts: "''
               @ join ''", "'' buttons @ ''".''
          else [])\<close>

definition user_display :: "sender \<Rightarrow> string" where
  \<comment> \<open>\<^verbatim>\<open>userDisplay\<close> (line 209)\<close>
  "user_display s =
     (if truthy (username s) then CHR ''@'' # or_empty (username s)
      else if truthy (first_name s) then or_empty (first_name s)
      else ''Unknown User'')"

definition message_text_of :: "replied_message \<Rightarrow> string" where
  \<comment> \<open>\<^verbatim>\<open>text || caption || ''\<close> (line 207)\<close>
  "message_text_of r =
     (if truthy (msg_text r) then or_empty (msg_text r)
      else if truthy (caption r) then or_empty (caption r)
      else [])"

datatype analysis = Caught | Returned | Analyzed verdict

definition build_user_message ::
  "env \<Rightarrow> replied_message \<Rightarrow> string \<Rightarrow> world \<Rightarrow> world \<times> (error + chat_message)" where
  \<comment> \<open>\<^verbatim>\<open>userMsg\<close> (lines 255 to 271); \<open>Inl\<close> when fetching the photo throws\<close>
  \<open>build_user_message e r markupText w =
     (let messageText = message_text_of r;
          analysisText = ''Analyze this message for rule violations: "'' @ messageText @ ''"''
                         @ markupText
      in case photo r of
           None \<Rightarrow> (w, Inr \<lparr>role = ''user'', msg_content = PlainText analysisText\<rparr>)
         | Some sizes \<Rightarrow>
             (case rev sizes of
                [] \<Rightarrow> (w, Inl Error)
              | file_id # _ \<Rightarrow>
                  (case file_path e file_id of
                     Inl _ \<Rightarrow> (emit (GetFile file_id) w, Inl Error)
                   | Inr path \<Rightarrow>
                       (case file_data e path of
                          Inl _ \<Rightarrow> (emit (DownloadFile path) (emit (GetFile file_id) w), Inl Error)
                        | Inr data \<Rightarrow>
                            let imageAnalysisText =
                                  (if messageText \<noteq> []
                                   then analysisText @ '' (The text is the image caption.)''
                                   else ''Analyze this image for rule violations.'' @ markupText)
                            in (emit (DownloadFile path) (emit (GetFile file_id) w),
                                Inr \<lparr>role = ''user'',
                                     msg_content = Parts [TextPart imageAnalysisText,
                                                          ImageUrlPart data]\<rparr>)))))\<close>

definition predates :: "nat \<Rightarrow> js_number option \<Rightarrow> bool" where
  \<comment> \<open>\<^verbatim>\<open>rulesCreatedDate && messageDate < rulesCreatedDate\<close> (line 248): \<^verbatim>\<open>null\<close>, \<^verbatim>\<open>NaN\<close>
      and \<^verbatim>\<open>0\<close> are falsy\<close>
  "predates messageDate rulesCreatedDate =
     (case rulesCreatedDate of
        None \<Rightarrow> False
      | Some NaN \<Rightarrow> False
      | Some (Num n) \<Rightarrow> n \<noteq> 0 \<and> int messageDate < n
      | Some Infinity \<Rightarrow> True
      | Some NegInfinity \<Rightarrow> False)"

definition analyze :: "env \<Rightarrow> chat_id \<Rightarrow> replied_message \<Rightarrow> string \<Rightarrow> world \<Rightarrow> world \<times> analysis" where
  \<comment> \<open>the \<^verbatim>\<open>try\<close> block of the report handler (lines 241 to 277): \<open>Caught\<close> when a statement
      of the block throws, \<open>Returned\<close> when the block returns from the handler\<close>
  "analyze e chatId r markupText w =
     (case getSimpleRules e chatId w of
        (w1, None) \<Rightarrow>
          (case editMessageText e NoRulesForReport w1 of
             (w2, Thrown) \<Rightarrow> (w2, Caught)
           | (w2, Done) \<Rightarrow> (w2, Returned))
      | (w1, Some simpleRules) \<Rightarrow>
          (case getRulesCreatedDate e chatId w1 of (w2, rulesCreatedDate) \<Rightarrow>
           if predates (msg_date r) rulesCreatedDate then
             (case editMessageText e PredatesRules w2 of
                (w3, Thrown) \<Rightarrow> (w3, Caught)
              | (w3, Done) \<Rightarrow> (w3, Returned))
           else
             let fullPrompt = buildFullPrompt simpleRules;
                 systemMsg = \<lparr>role = ''system'', msg_content = PlainText fullPrompt\<rparr>
             in (case build_user_message e r markupText w2 of
                   (w3, Inl _) \<Rightarrow> (w3, Caught)
                 | (w3, Inr userMsg) \<Rightarrow>
                     (case callHuggingFace e [systemMsg, userMsg] w3 of
                        (w4, v) \<Rightarrow> (w4, Analyzed v)))))"

definition enforce :: "env \<Rightarrow> chat_id \<Rightarrow> replied_message \<Rightarrow> user_info \<Rightarrow> string \<Rightarrow> world \<Rightarrow> world \<times> outcome" where
  \<comment> \<open>the branch taken on a violation (lines 281 to 297)\<close>
  "enforce e chatId r userInfo why w =
     (let userId = sender_id (msg_from r) in
      case telegram e (DeleteMessage chatId (message_id r)) w of
        (w1, Inl _) \<Rightarrow> reply e (ActionFailed userInfo why) w1
      | (w1, Inr _) \<Rightarrow>
          (case telegram e (RestrictChatMember chatId userId MuteForever) w1 of
             (w2, Inl _) \<Rightarrow> reply e (ActionFailed userInfo why) w2
           | (w2, Inr _) \<Rightarrow>
               (case telegram e (Reply (MutedPermanently userInfo why)) w2 of
                  (w3, Inl _) \<Rightarrow> reply e (ActionFailed userInfo why) w3
                | (w3, Inr _) \<Rightarrow> (w3, Done))))"

definition moderate ::
  "env \<Rightarrow> chat_id \<Rightarrow> replied_message \<Rightarrow> user_info \<Rightarrow> world \<Rightarrow> world \<times> outcome" where
  \<comment> \<open>the report handler after the exemption check (lines 222 to 298)\<close>
  "moderate e chatId replied userInfo w =
     (let markupText = markup_text (inline_keyboard replied) in
      case telegram e (Reply Analyzing) w of
        (w1, Inl _) \<Rightarrow> (w1, Thrown)
      | (w1, Inr _) \<Rightarrow>
          (case analyze e chatId replied markupText w1 of
             (w2, Caught) \<Rightarrow> editMessageText e AnalysisFailed w2
           | (w2, Returned) \<Rightarrow> (w2, Done)
           | (w2, Analyzed v) \<Rightarrow>
               (case editMessageText e
                       (if violates v then ViolationDetected (reason v)
                        else AllGood (reason v)) w2 of
                  (w3, Thrown) \<Rightarrow> (w3, Thrown)
                | (w3, Done) \<Rightarrow>
                    if violates v then enforce e chatId replied userInfo (reason v) w3
                    else (w3, Done))))"

definition report_command :: "env \<Rightarrow> ctx \<Rightarrow> world \<Rightarrow> world \<times> outcome" where
  "report_command e c w =
     (if chat_type c \<noteq> ''supergroup'' then reply e GroupsOnly w
      else
        (case reply_to_message c of
           None \<Rightarrow> reply e ReplyNeeded w
         | Some replied \<Rightarrow>
             let userId = sender_id (msg_from replied);
                 chatId = chat c;
                 messageText = message_text_of replied
             in
             if messageText = [] \<and> photo replied = None then reply e NothingToAnalyze w
             else
               let userInfo = UserInfo (user_display (msg_from replied)) userId in
               (case reported_user_authorized e chatId userId w of (w1, isReportedUserAuthorized) \<Rightarrow>
                if isReportedUserAuthorized then reply e (ModerationSkipped userInfo) w1
                else moderate e chatId replied userInfo w1)))"

section \<open>Notions of the specification\<close>

text \<open>
  The specification speaks of the non-empty trimmed lines of a response, of a
  case-insensitive comparison and of a timestamp lookup that yields no integer. These
  definitions follow its words; the theorems below compare them with what the code computes.
\<close>

definition spec_lines :: "string \<Rightarrow> string list" where
  "spec_lines body = filter (\<lambda>p. p \<noteq> []) (map trim (split (CHR 0x0A) body))"

definition same_letter :: "char \<Rightarrow> char \<Rightarrow> bool" where
  "same_letter x y =
     (x = y \<or> (x, y) \<in> set (zip lower_letters upper_letters)
            \<or> (y, x) \<in> set (zip lower_letters upper_letters))"

definition spec_ci_equal :: "string \<Rightarrow> string \<Rightarrow> bool" where
  "spec_ci_equal a b = list_all2 same_letter a b"

definition no_integer :: "js_number option \<Rightarrow> bool" where
  \<comment> \<open>the lookup gave no integer: \<^verbatim>\<open>null\<close> or \<^verbatim>\<open>NaN\<close>\<close>
  "no_integer x = (case x of Some (Num n) \<Rightarrow> False | _ \<Rightarrow> True)"

section \<open>Example inputs\<close>

definition example_env :: "string \<Rightarrow> error + string option \<Rightarrow> env" where
  "example_env st resp =
     \<lparr>rejects = (\<lambda>_. False),
      chat_member = (\<lambda>_ _. Inr \<lparr>status = st, member_username = None, member_first_name = None\<rparr>),
      file_path = (\<lambda>_. Inl Error),
      file_data = (\<lambda>_. Inl Error),
      hf_response = (\<lambda>_. resp),
      now_ms = 1700000000000\<rparr>"

definition empty_world :: world where
  "empty_world = \<lparr>kv = Map.empty, trace = []\<rparr>"

definition stored_world :: "chat_id \<Rightarrow> string \<Rightarrow> string \<Rightarrow> world" where
  "stored_world chatId rulesText created =
     \<lparr>kv = [Group_simple_rules chatId \<mapsto> rulesText, Group_rules_created chatId \<mapsto> created],
      trace = []\<rparr>"

definition example_ctx :: "user_id \<Rightarrow> string \<Rightarrow> replied_message option \<Rightarrow> ctx" where
  "example_ctx uid txt r =
     \<lparr>chat_type = ''supergroup'', chat = - 1001, from_id = uid, message_text = txt,
      reply_to_message = r\<rparr>"

definition example_message :: "user_id \<Rightarrow> nat \<Rightarrow> replied_message" where
  "example_message uid date =
     \<lparr>msg_from = \<lparr>sender_id = uid, first_name = Some ''Alice'', username = Some ''alice''\<rparr>,
      message_id = 500, msg_text = Some ''buy cheap watches'', caption = None, photo = None,
      inline_keyboard = None, msg_date = date\<rparr>"

definition example_request :: "chat_message list" where
  \<open>example_request =
     [\<lparr>role = ''system'', msg_content = PlainText (buildFullPrompt ''No spam, no links, tech only'')\<rparr>,
      \<lparr>role = ''user'',
       msg_content = PlainText ''Analyze this message for rule violations: "buy cheap watches"''\<rparr>]\<close>

section \<open>Lines, trimming and case\<close>

lemma trim_Nil [simp]: "trim [] = []"
  by (simp add: trim_def)

lemma trim_ws_Cons: "is_ws c \<Longrightarrow> trim (c # p) = trim p"
  by (simp add: trim_def)

lemma trim_ws_snoc: "is_ws c \<Longrightarrow> trim (p @ [c]) = trim p"
  by (cases "\<forall>x\<in>set p. is_ws x") (auto simp: trim_def dropWhile_append dest: set_dropWhileD)

lemma trim_eq_Nil: "trim s = [] \<longleftrightarrow> (\<forall>c\<in>set s. is_ws c)"
proof
  assume "trim s = []"
  then have all: "\<forall>x\<in>set (dropWhile is_ws s). is_ws x"
    by (simp add: trim_def dropWhile_eq_Nil_conv)
  show "\<forall>c\<in>set s. is_ws c"
  proof (cases "dropWhile is_ws s")
    case Nil
    then show ?thesis by (simp add: dropWhile_eq_Nil_conv)
  next
    case (Cons x xs)
    then have "\<not> is_ws x" using hd_dropWhile [of is_ws s] by auto
    with all Cons show ?thesis by simp
  qed
next
  assume "\<forall>c\<in>set s. is_ws c"
  then show "trim s = []" by (auto simp: trim_def dest: set_dropWhileD)
qed

lemma split_not_Nil [simp]: "split sep s \<noteq> []"
  by (induction s) (auto split: list.splits)

lemma split_snoc:
  "split sep (s @ [c]) =
     (if c = sep then split sep s @ [[]]
      else butlast (split sep s) @ [last (split sep s) @ [c]])"
  by (induction s) (auto split: list.splits)

lemma LF_is_ws: "is_ws (CHR 0x0A)"
  by (simp add: is_ws_def)

lemma spec_lines_ws_Cons: "is_ws c \<Longrightarrow> spec_lines (c # s) = spec_lines s"
  by (cases "split (CHR 0x0A) s") (auto simp: spec_lines_def trim_ws_Cons)

lemma spec_lines_trimStart: "spec_lines (dropWhile is_ws s) = spec_lines s"
  by (induction s) (simp_all add: spec_lines_ws_Cons)

lemma spec_lines_ws_snoc: "is_ws c \<Longrightarrow> spec_lines (s @ [c]) = spec_lines s"
proof -
  assume ws: "is_ws c"
  obtain xs x where sp: "split (CHR 0x0A) s = xs @ [x]"
    using split_not_Nil [of "CHR 0x0A" s] by (metis rev_exhaust)
  show ?thesis
    using ws by (simp add: spec_lines_def split_snoc sp trim_ws_snoc)
qed

lemma spec_lines_trimEnd: "spec_lines (rev (dropWhile is_ws (rev s))) = spec_lines s"
  by (induction s rule: rev_induct) (simp_all add: spec_lines_ws_snoc)

lemma spec_lines_trim: "spec_lines (trim s) = spec_lines s"
  unfolding trim_def by (simp add: spec_lines_trimEnd spec_lines_trimStart)

lemma spec_lines_eq_Nil: "spec_lines s = [] \<longleftrightarrow> (\<forall>c\<in>set s. is_ws c)"
proof (induction s)
  case Nil
  then show ?case by (simp add: spec_lines_def)
next
  case (Cons c s)
  show ?case
  proof (cases "is_ws c")
    case True
    then show ?thesis using Cons by (simp add: spec_lines_ws_Cons)
  next
    case False
    then have "c \<noteq> CHR 0x0A" using LF_is_ws by auto
    then obtain p ps where "split (CHR 0x0A) (c # s) = (c # p) # ps"
      by (cases "split (CHR 0x0A) s") auto
    moreover have "trim (c # p) \<noteq> []" using False by (simp add: trim_eq_Nil)
    ultimately show ?thesis using False by (auto simp: spec_lines_def)
  qed
qed

lemma spec_lines_nonempty: "p \<in> set (spec_lines s) \<Longrightarrow> p \<noteq> []"
  by (simp add: spec_lines_def)

lemma join_eq_Nil: "\<forall>p\<in>set ps. p \<noteq> [] \<Longrightarrow> join sep ps = [] \<longleftrightarrow> ps = []"
  by (induction sep ps rule: join.induct) auto


lemma upper_units_cases:
  "(c = CHR 0xDF \<and> upper_units c = [83, 83]) \<or> (c \<noteq> CHR 0xDF \<and> (\<exists>u. upper_units c = [u]))"
  by (simp add: upper_units_def split: option.splits)

lemma of_char_eq_89: "(of_char c :: nat) = 89 \<longleftrightarrow> c = CHR ''Y''"
proof -
  have "(of_char (CHR ''Y'') :: nat) = 89" by simp
  then show ?thesis by (metis of_char_eq_iff)
qed

lemma of_char_eq_69: "(of_char c :: nat) = 69 \<longleftrightarrow> c = CHR ''E''"
proof -
  have "(of_char (CHR ''E'') :: nat) = 69" by simp
  then show ?thesis by (metis of_char_eq_iff)
qed

lemma of_char_eq_83: "(of_char c :: nat) = 83 \<longleftrightarrow> c = CHR ''S''"
proof -
  have "(of_char (CHR ''S'') :: nat) = 83" by simp
  then show ?thesis by (metis of_char_eq_iff)
qed

lemma upper_units_Y: "upper_units c = [89] \<longleftrightarrow> same_letter c (CHR ''Y'')"
  by (simp add: upper_units_def same_letter_def lower_letters_def upper_letters_def
        latin1_lower_def latin1_upper_def of_char_eq_89)

lemma upper_units_E: "upper_units c = [69] \<longleftrightarrow> same_letter c (CHR ''E'')"
  by (simp add: upper_units_def same_letter_def lower_letters_def upper_letters_def
        latin1_lower_def latin1_upper_def of_char_eq_69)

lemma upper_units_S: "upper_units c = [83] \<longleftrightarrow> same_letter c (CHR ''S'')"
  by (simp add: upper_units_def same_letter_def lower_letters_def upper_letters_def
        latin1_lower_def latin1_upper_def of_char_eq_83)

lemma toUpperCase_Nil: "toUpperCase p = [] \<longleftrightarrow> p = []"
proof (cases p)
  case Nil
  then show ?thesis by (simp add: toUpperCase_def)
next
  case (Cons c p')
  then show ?thesis using upper_units_cases [of c] by (auto simp: toUpperCase_def)
qed

lemma toUpperCase_Cons:
  assumes "x \<noteq> 83"
  shows "toUpperCase p = x # xs \<longleftrightarrow>
         (\<exists>c p'. p = c # p' \<and> upper_units c = [x] \<and> toUpperCase p' = xs)"
proof (cases p)
  case Nil
  then show ?thesis by (simp add: toUpperCase_def)
next
  case (Cons c p')
  then show ?thesis using assms upper_units_cases [of c] by (auto simp: toUpperCase_def)
qed

lemma toUpperCase_83: "toUpperCase p = [83] \<longleftrightarrow> (\<exists>c. p = [c] \<and> upper_units c = [83])"
proof (cases p)
  case Nil
  then show ?thesis by (simp add: toUpperCase_def)
next
  case (Cons c p')
  have "toUpperCase (c # p') = upper_units c @ toUpperCase p'" by (simp add: toUpperCase_def)
  then show ?thesis
    using Cons upper_units_cases [of c] toUpperCase_Nil [of p'] by auto
qed

lemma toUpperCase_YES: "toUpperCase p = code_units ''YES'' \<longleftrightarrow> spec_ci_equal p ''YES''"
proof -
  have "toUpperCase p = code_units ''YES'' \<longleftrightarrow> toUpperCase p = [89, 69, 83]"
    by (simp add: code_units_def)
  also have "\<dots> \<longleftrightarrow> (\<exists>a b c. p = [a, b, c] \<and> upper_units a = [89] \<and> upper_units b = [69]
                               \<and> upper_units c = [83])"
    by (auto simp: toUpperCase_Cons toUpperCase_83)
  also have "\<dots> \<longleftrightarrow> spec_ci_equal p ''YES''"
    by (auto simp: spec_ci_equal_def list_all2_Cons2 upper_units_Y upper_units_E upper_units_S)
  finally show ?thesis .
qed

lemma parse_content_Some:
  "parse_content (Some body) =
     (case spec_lines body of
        [] \<Rightarrow> \<lparr>violates = False, reason = ''No analysis response''\<rparr>
      | decision # rest \<Rightarrow>
          \<lparr>violates = (toUpperCase decision = code_units ''YES''),
           reason = (if rest = [] then ''Unspecified'' else join '' '' rest)\<rparr>)"
proof (cases "trim body = []")
  case True
  then have "spec_lines body = []" by (simp add: spec_lines_eq_Nil trim_eq_Nil)
  with True show ?thesis by (simp add: parse_content_def)
next
  case False
  then obtain d rest where sl: "spec_lines body = d # rest"
    by (cases "spec_lines body") (auto simp: spec_lines_eq_Nil trim_eq_Nil)
  have ps: "filter (\<lambda>p. p \<noteq> []) (map trim (split (CHR 0x0A) (trim body))) = d # rest"
    using sl spec_lines_trim [of body] by (simp add: spec_lines_def)
  have "\<forall>p\<in>set rest. p \<noteq> []"
    using spec_lines_nonempty [of _ body] sl by auto
  then have "join '' '' rest = [] \<longleftrightarrow> rest = []" by (rule join_eq_Nil)
  with False ps sl show ?thesis by (simp add: parse_content_def Let_def)
qed

lemma last_dropWhile: "dropWhile P xs \<noteq> [] \<Longrightarrow> last (dropWhile P xs) = last xs"
  by (induction xs) auto

lemma trim_ends:
  assumes "trim s \<noteq> []"
  shows "\<not> is_ws (hd (trim s))" and "\<not> is_ws (last (trim s))"
proof -
  let ?u = "dropWhile is_ws s"
  let ?d = "dropWhile is_ws (rev ?u)"
  have d: "?d \<noteq> []" using assms by (simp add: trim_def)
  then have u: "?u \<noteq> []" by (cases ?u) simp_all
  have "hd (trim s) = last ?d" using d by (simp add: trim_def hd_rev)
  also have "\<dots> = last (rev ?u)" using d by (rule last_dropWhile)
  also have "\<dots> = hd ?u" using u by (simp add: last_rev)
  finally show "\<not> is_ws (hd (trim s))" using u hd_dropWhile [of is_ws s] by simp
  have "last (trim s) = hd ?d" using d by (simp add: trim_def last_rev)
  then show "\<not> is_ws (last (trim s))" using d hd_dropWhile [of is_ws "rev ?u"] by simp
qed

lemma trim_idem: "trim (trim s) = trim s"
proof (cases "trim s = []")
  case True
  then show ?thesis by simp
next
  case False
  let ?t = "trim s"
  have a: "dropWhile is_ws ?t = ?t"
    using False trim_ends(1) [OF False] by (cases ?t) simp_all
  have "rev ?t \<noteq> []" using False by simp
  moreover have "\<not> is_ws (hd (rev ?t))" using False trim_ends(2) [OF False] by (simp add: hd_rev)
  ultimately have b: "dropWhile is_ws (rev ?t) = rev ?t" by (cases "rev ?t") simp_all
  show ?thesis by (subst trim_def) (simp add: a b)
qed

section \<open>Decimal digits, doubles, parseInt and toString\<close>

lemma is_digit_10: "is_digit 10 c \<longleftrightarrow> c \<in> set ''0123456789''"
  by (simp add: is_digit_def digit_val_def lower_letters_def upper_letters_def)

lemma digit_not_ws: "is_digit 10 c \<Longrightarrow> \<not> is_ws c \<and> c \<noteq> CHR ''-'' \<and> c \<noteq> CHR ''+''"
  by (auto simp: is_digit_10 is_ws_def)

lemma takeWhile_digits:
  assumes "\<forall>c\<in>set ds. is_digit 10 c" and "rest = [] \<or> \<not> is_digit 10 (hd rest)"
  shows "takeWhile (is_digit 10) (ds @ rest) = ds"
  using assms by (cases rest) (auto simp: takeWhile_append)

lemma parseInt_plain:
  assumes ne: "s \<noteq> []"
    and hd: "\<not> is_ws (hd s)" "hd s \<noteq> CHR ''-''" "hd s \<noteq> CHR ''+''"
    and radix: "radix = 10 \<or> (radix = 0 \<and> take 2 s \<noteq> ''0x'' \<and> take 2 s \<noteq> ''0X'')"
    and Z: "takeWhile (is_digit 10) s \<noteq> []"
  shows "parseInt s radix = number_of False (digits_value 10 (takeWhile (is_digit 10) s))"
proof -
  have s0: "trimStart s = s"
    using ne hd by (cases s) (simp_all add: trimStart_def)
  have neg: "(case s of c # _ \<Rightarrow> c = CHR ''-'' | [] \<Rightarrow> False) = False"
    using ne hd by (cases s) simp_all
  have s1: "(case s of c # r \<Rightarrow> if c = CHR ''+'' \<or> c = CHR ''-'' then r else s | [] \<Rightarrow> s) = s"
    using ne hd by (cases s) simp_all
  from radix show ?thesis
  proof
    assume "radix = 10"
    then show ?thesis using Z by (simp add: parseInt_def Let_def s0 neg s1)
  next
    assume "radix = 0 \<and> take 2 s \<noteq> ''0x'' \<and> take 2 s \<noteq> ''0X''"
    then show ?thesis using Z by (simp add: parseInt_def Let_def s0 neg s1)
  qed
qed

lemma parseInt_decimal_prefix:
  assumes ne: "ds \<noteq> []"
    and digits: "\<forall>c\<in>set ds. is_digit 10 c"
    and stop: "rest = [] \<or> \<not> is_digit 10 (hd rest)"
    and radix: "radix = 10 \<or> (radix = 0 \<and> take 2 (ds @ rest) \<noteq> ''0x'' \<and> take 2 (ds @ rest) \<noteq> ''0X'')"
  shows "parseInt (ds @ rest) radix = number_of False (digits_value 10 ds)"
proof -
  have "is_digit 10 (hd ds)" using ne digits by (cases ds) simp_all
  then have hd: "\<not> is_ws (hd (ds @ rest))" "hd (ds @ rest) \<noteq> CHR ''-''" "hd (ds @ rest) \<noteq> CHR ''+''"
    using ne digit_not_ws [of "hd ds"] by simp_all
  have tw: "takeWhile (is_digit 10) (ds @ rest) = ds"
    using digits stop by (rule takeWhile_digits)
  show ?thesis
    using parseInt_plain [of "ds @ rest" radix] ne hd radix by (simp only: tw) simp
qed

lemma below_ten:
  "(k::nat) < 10 \<Longrightarrow> k = 0 \<or> k = 1 \<or> k = 2 \<or> k = 3 \<or> k = 4 \<or> k = 5 \<or> k = 6 \<or> k = 7 \<or> k = 8 \<or> k = 9"
  by arith

lemma is_digit_nth: "k < 10 \<Longrightarrow> is_digit 10 (''0123456789'' ! k)"
  by (drule below_ten) (auto simp: is_digit_10)

lemma digit_val_nth: "k < 10 \<Longrightarrow> digit_val (''0123456789'' ! k) = Some k"
  by (drule below_ten) (auto simp: digit_val_def)

lemma toString_digits: "toString n \<noteq> [] \<and> (\<forall>c\<in>set (toString n). is_digit 10 c)"
proof (induction n rule: toString.induct)
  case (1 n)
  note nth = is_digit_nth
  show ?case
  proof (cases "n < 10")
    case True
    then show ?thesis using nth [of n] by (subst (1 2) toString.simps) simp
  next
    case False
    then show ?thesis
      using 1 nth [of "n mod 10"] by (subst (1 2) toString.simps) auto
  qed
qed

lemma digits_value_snoc:
  "digits_value R (Z @ [c]) = digits_value R Z * R + (case digit_val c of Some v \<Rightarrow> v | None \<Rightarrow> 0)"
  by (simp add: digits_value_def)

lemma digits_value_toString: "digits_value 10 (toString n) = n"
proof (induction n rule: toString.induct)
  case (1 n)
  show ?case
  proof (cases "n < 10")
    case True
    then show ?thesis
      by (subst toString.simps) (simp add: digits_value_def digit_val_nth)
  next
    case False
    then show ?thesis
      using 1 by (subst toString.simps) (simp add: digits_value_snoc digit_val_nth)
  qed
qed

lemma number_of_exact: "n < 2 ^ 53 \<Longrightarrow> number_of False n = Num (int n)"
  by (simp add: number_of_def to_double_def)

lemma parseInt_toString: "parseInt (toString n) 10 = number_of False n"
  using parseInt_decimal_prefix [of "toString n" "[]" 10] toString_digits [of n]
  by (simp add: digits_value_toString)

lemma parseInt_Nil [simp]: "parseInt [] radix = NaN"
  by (simp add: parseInt_def trimStart_def Let_def)

section \<open>Calls made by a handler\<close>

lemma reply_eq:
  "reply e n w = (emit (Reply n) w, if rejects e (Reply n) then Thrown else Done)"
  by (simp add: reply_def telegram_def)

lemma editMessageText_eq:
  "editMessageText e n w =
     (emit (EditMessageText n) w, if rejects e (EditMessageText n) then Thrown else Done)"
  by (simp add: editMessageText_def telegram_def)

lemma new_calls_emit1 [simp]: "new_calls w (emit a w) = [a]"
  by (simp add: new_calls_def emit_def)

lemma new_calls_emit2 [simp]: "new_calls w (emit b (emit a w)) = [a, b]"
  by (simp add: new_calls_def emit_def)

lemma kv_emit [simp]: "kv (emit a w) = kv w"
  by (simp add: emit_def)

lemma trace_emit [simp]: "trace (emit a w) = trace w @ [a]"
  by (simp add: emit_def)

lemma analyze_predates:
  assumes "\<not> rejects e (RedisGet (Group_rules_created chatId))"
    and "kv w (Group_rules_created chatId) = Some s"
    and "parseInt s 10 = Num ts"
    and "int (msg_date r) < ts"
  shows "analyze e chatId r markupText w =
     (if rejects e (RedisGet (Group_simple_rules chatId))
         \<or> \<not> truthy (kv w (Group_simple_rules chatId))
      then (emit (EditMessageText NoRulesForReport) (emit (RedisGet (Group_simple_rules chatId)) w),
            if rejects e (EditMessageText NoRulesForReport) then Caught else Returned)
      else (emit (EditMessageText PredatesRules)
              (emit (RedisGet (Group_rules_created chatId))
                 (emit (RedisGet (Group_simple_rules chatId)) w)),
            if rejects e (EditMessageText PredatesRules) then Caught else Returned))"
proof -
  have "s \<noteq> []" using assms(3) by auto
  then show ?thesis
    using assms
    by (simp add: analyze_def getSimpleRules_def getRulesCreatedDate_def redis_get_def
          editMessageText_eq predates_def emit_def truthy_def split: option.splits)
qed

lemma build_user_message_calls:
  "\<exists>xs. trace (fst (build_user_message e r mk w)) = trace w @ xs
        \<and> \<not> list_ex is_inference xs \<and> \<not> list_ex is_enforcement xs
        \<and> EditMessageText AnalysisFailed \<notin> set xs"
  by (auto simp: build_user_message_def Let_def split: option.splits list.splits sum.splits)

lemma fst_callHuggingFace: "fst (callHuggingFace e msgs w) = emit (HfPost msgs) w"
  by (simp add: callHuggingFace_def)

lemma snd_callHuggingFace: "snd (callHuggingFace e msgs w) = snd (callHuggingFace e msgs w')"
  by (simp add: callHuggingFace_def)

lemma analyze_cases:
  "(\<exists>xs. trace (fst (analyze e chatId r mk w)) = trace w @ xs
          \<and> \<not> list_ex is_inference xs \<and> \<not> list_ex is_enforcement xs
          \<and> (snd (analyze e chatId r mk w) = Caught \<or> snd (analyze e chatId r mk w) = Returned))
   \<or> (\<exists>xs msgs. trace (fst (analyze e chatId r mk w)) = trace w @ xs @ [HfPost msgs]
          \<and> \<not> list_ex is_inference xs \<and> \<not> list_ex is_enforcement xs
          \<and> EditMessageText AnalysisFailed \<notin> set xs
          \<and> snd (analyze e chatId r mk w) = Analyzed (snd (callHuggingFace e msgs w)))"
proof -
  let ?w2 = "emit (RedisGet (Group_rules_created chatId))
               (emit (RedisGet (Group_simple_rules chatId)) w)"
  obtain xs where xs: "trace (fst (build_user_message e r mk ?w2)) = trace ?w2 @ xs"
      "\<not> list_ex is_inference xs" "\<not> list_ex is_enforcement xs"
      "EditMessageText AnalysisFailed \<notin> set xs"
    using build_user_message_calls [of e r mk ?w2] by blast
  obtain w3 um where bum: "build_user_message e r mk ?w2 = (w3, um)"
    by (cases "build_user_message e r mk ?w2")
  have w3: "trace w3 = trace w @ [RedisGet (Group_simple_rules chatId),
                                  RedisGet (Group_rules_created chatId)] @ xs"
    using xs(1) bum by simp
  show ?thesis
    using xs(2,3,4) w3
    by (auto simp: analyze_def getSimpleRules_def getRulesCreatedDate_def redis_get_def
          editMessageText_eq Let_def bum split_beta fst_callHuggingFace
          snd_callHuggingFace [of e _ w3 w]
          split: option.splits sum.splits)
qed


lemma moderate_trace:
  "\<exists>xs. trace (fst (moderate e chatId r ui w)) = trace w @ xs
     \<and> (\<forall>msgs. HfPost msgs \<in> set xs \<longrightarrow> (\<exists>x. hf_response e msgs = Inl x) \<longrightarrow>
           take 2 (rev xs) = [EditMessageText (AllGood ''Analysis unavailable''), HfPost msgs]
           \<and> \<not> list_ex is_enforcement xs
           \<and> EditMessageText AnalysisFailed \<notin> set xs
           \<and> snd (moderate e chatId r ui w) =
               (if rejects e (EditMessageText (AllGood ''Analysis unavailable'')) then Thrown
                else Done))"
proof -
  let ?w1 = "emit (Reply Analyzing) w"
  let ?mk = "markup_text (inline_keyboard r)"
  obtain w2 res where an: "analyze e chatId r ?mk ?w1 = (w2, res)"
    by (cases "analyze e chatId r ?mk ?w1")
  from analyze_cases [of e chatId r ?mk ?w1] an
  consider (stop) ys where "trace w2 = trace ?w1 @ ys" "\<not> list_ex is_inference ys"
      "\<not> list_ex is_enforcement ys" "res = Caught \<or> res = Returned"
    | (go) ys m where "trace w2 = trace ?w1 @ ys @ [HfPost m]" "\<not> list_ex is_inference ys"
      "\<not> list_ex is_enforcement ys" "EditMessageText AnalysisFailed \<notin> set ys" "res = Analyzed (snd (callHuggingFace e m ?w1))"
    by auto
  then show ?thesis
  proof cases
    case stop
    have "\<And>m. HfPost m \<notin> set ys" using stop(2) by (force simp: list_ex_iff)
    with stop show ?thesis
      using an
      by (auto simp: moderate_def telegram_def editMessageText_eq Let_def list_ex_iff)
  next
    case go
    have "\<And>m. HfPost m \<notin> set ys" using go(2) by (force simp: list_ex_iff)
    then show ?thesis
      using an go
      by (auto simp: moderate_def telegram_def editMessageText_eq enforce_def reply_eq
            callHuggingFace_def Let_def list_ex_iff split: sum.splits)
  qed
qed


lemma take2_append:
  assumes "take 2 zs = [a, b]"
  shows "take 2 (zs @ us) = [a, b]"
proof -
  have "length (take 2 zs) = 2" using assms by simp
  then have "2 \<le> length zs" by simp
  then show ?thesis using assms by simp
qed

text \<open>Facts for running the report handler on the example inputs.\<close>

lemmas report_run =
  report_command_def example_ctx_def example_message_def message_text_of_def truthy_def
  or_empty_def user_display_def reported_user_authorized_def SPECIAL_ANONYMOUS_IDS_def
  getChatMember_def example_env_def is_admin_status_def moderate_def markup_text_def
  telegram_def analyze_def getSimpleRules_def getRulesCreatedDate_def redis_get_def
  stored_world_def predates_def build_user_message_def callHuggingFace_def editMessageText_eq
  reply_eq new_calls_def emit_def Let_def

lemma parseInt_1700000000: "parseInt ''1700000000'' 10 = Num 1700000000"
  by (simp add: parseInt_def number_of_def to_double_def trimStart_def is_ws_def is_digit_def digit_val_def digits_value_def
        lower_letters_def upper_letters_def)

lemma parseInt_1600000000: "parseInt ''1600000000'' 10 = Num 1600000000"
  by (simp add: parseInt_def number_of_def to_double_def trimStart_def is_ws_def is_digit_def digit_val_def digits_value_def
        lower_letters_def upper_letters_def)

section \<open>Inference client: parsing the response\<close>

text \<open>
  C1 (amended). For every response of the inference endpoint, \<open>callHuggingFace\<close> splits the
  response text into its non-empty trimmed lines; \<open>violates\<close> is true exactly when the first
  line is equal to \<open>YES\<close> up to the case of its letters; the reason is the remaining lines
  joined with single spaces when there is a remaining line, and the fixed text
  \<open>Unspecified\<close> when there is none; a response without content, or whose content has no
  non-empty line, gives \<open>violates = False\<close> with the reason \<open>No analysis response\<close>.
\<close>

theorem analyze_response_parsing:
  assumes "hf_response e messages = Inr c"
  shows "snd (callHuggingFace e messages w) =
     (case c of
        None \<Rightarrow> \<lparr>violates = False, reason = ''No analysis response''\<rparr>
      | Some body \<Rightarrow>
          (case spec_lines body of
             [] \<Rightarrow> \<lparr>violates = False, reason = ''No analysis response''\<rparr>
           | decision # rest \<Rightarrow>
               \<lparr>violates = spec_ci_equal decision ''YES'',
                reason = (if rest = [] then ''Unspecified'' else join '' '' rest)\<rparr>))"
proof (cases c)
  case None
  with assms show ?thesis by (simp add: callHuggingFace_def parse_content_def)
next
  case (Some body)
  with assms show ?thesis
    by (cases "spec_lines body")
       (simp_all add: callHuggingFace_def parse_content_Some toUpperCase_YES)
qed

text \<open>The response \<open>no\<close>, line feed, \<open>fine\<close> of the specification.\<close>

theorem analyze_response_parsing_witness:
  "snd (callHuggingFace (example_env ''member'' (Inr (Some (''no'' @ [CHR 0x0A] @ ''fine''))))
          [] empty_world)
     = \<lparr>violates = False, reason = ''fine''\<rparr>"
  using analyze_response_parsing
          [of "example_env ''member'' (Inr (Some (''no'' @ [CHR 0x0A] @ ''fine'')))" "[]"
              "Some (''no'' @ [CHR 0x0A] @ ''fine'')" empty_world]
  by (simp add: example_env_def spec_lines_def trim_def is_ws_def spec_ci_equal_def)

text \<open>
  As stated, C1 takes the reason to be the remaining lines joined with single spaces. For
  the response \<open>YES\<close> there is no remaining line, the joined text is empty, and the code
  answers \<open>Unspecified\<close> (line 48).
\<close>

theorem analyze_reason_counterexample:
  "snd (callHuggingFace (example_env ''member'' (Inr (Some ''YES''))) [] empty_world)
     = \<lparr>violates = True, reason = ''Unspecified''\<rparr>
   \<and> join '' '' (drop 1 (spec_lines ''YES'')) = []"
  by (simp add: callHuggingFace_def example_env_def parse_content_def trim_def is_ws_def
        toUpperCase_def upper_units_def code_units_def lower_letters_def upper_letters_def
        latin1_lower_def latin1_upper_def spec_lines_def)

text \<open>
  C10. For every response of the inference endpoint that consists of a single non-empty
  line (a decision token and no further non-empty line), \<open>callHuggingFace\<close> returns the
  fixed reason \<open>Unspecified\<close>, not an empty reason.
\<close>

theorem single_line_reason_unspecified:
  "hf_response e messages = Inr (Some body) \<Longrightarrow> spec_lines body = [decision] \<Longrightarrow>
   reason (snd (callHuggingFace e messages w)) = ''Unspecified''"
  by (simp add: callHuggingFace_def parse_content_Some)

theorem single_line_reason_unspecified_witness:
  "spec_lines '' NO  '' = [''NO''] \<and>
   reason (snd (callHuggingFace (example_env ''member'' (Inr (Some '' NO  ''))) [] empty_world))
     = ''Unspecified''"
proof -
  have sl: "spec_lines '' NO  '' = [''NO'']"
    by (simp add: spec_lines_def trim_def is_ws_def)
  show ?thesis
    using sl single_line_reason_unspecified
               [of "example_env ''member'' (Inr (Some '' NO  ''))" "[]" "'' NO  ''" "''NO''"
                   empty_world]
    by (simp add: example_env_def)
qed

text \<open>
  A no-break space is white space to \<^verbatim>\<open>trim\<close>: a first line \<open>YES\<close> followed by one is the
  decision \<open>YES\<close>, and a response that holds nothing else has no line at all.
\<close>

lemma no_break_space_after_decision:
  "snd (callHuggingFace
          (example_env ''member'' (Inr (Some (''YES'' @ [CHR 0xA0, CHR 0x0A] @ ''spam link''))))
          [] empty_world)
     = \<lparr>violates = True, reason = ''spam link''\<rparr>"
  by (simp add: callHuggingFace_def example_env_def parse_content_def trim_def is_ws_def
        toUpperCase_def upper_units_def code_units_def lower_letters_def upper_letters_def
        latin1_lower_def latin1_upper_def)

lemma no_break_space_only:
  "spec_lines [CHR 0xA0] = []
   \<and> snd (callHuggingFace (example_env ''member'' (Inr (Some [CHR 0xA0]))) [] empty_world)
     = \<lparr>violates = False, reason = ''No analysis response''\<rparr>
   \<and> spec_lines (''YES'' @ [CHR 0x0A, CHR 0xA0]) = [''YES'']
   \<and> snd (callHuggingFace (example_env ''member'' (Inr (Some (''YES'' @ [CHR 0x0A, CHR 0xA0]))))
          [] empty_world)
     = \<lparr>violates = True, reason = ''Unspecified''\<rparr>"
  by (simp add: callHuggingFace_def example_env_def parse_content_def trim_def is_ws_def
        toUpperCase_def upper_units_def code_units_def lower_letters_def upper_letters_def
        latin1_lower_def latin1_upper_def spec_lines_def)

section \<open>Authorization check\<close>

text \<open>
  C7. For every user ID, \<open>isAuthorizedUser\<close> returns true at once, without a membership
  lookup (the world is unchanged), when the ID is in the fixed list of anonymous senders;
  otherwise it makes exactly one membership lookup and returns true exactly when the lookup
  yields the status \<open>administrator\<close> or \<open>creator\<close>, and false when the lookup throws.
\<close>

theorem isAuthorizedUser_decision:
  "(userId \<in> set SPECIAL_ANONYMOUS_IDS \<longrightarrow> isAuthorizedUser e userId chatId w = (w, True))
   \<and> (userId \<notin> set SPECIAL_ANONYMOUS_IDS \<longrightarrow>
        fst (isAuthorizedUser e userId chatId w) = emit (GetChatMember chatId userId) w
        \<and> snd (isAuthorizedUser e userId chatId w) =
            (case chat_member e chatId userId of
               Inl _ \<Rightarrow> False
             | Inr m \<Rightarrow> status m = ''administrator'' \<or> status m = ''creator''))"
  by (simp add: isAuthorizedUser_def getChatMember_def is_admin_status_def split: sum.splits)

theorem isAuthorizedUser_decision_witness:
  "isAuthorizedUser (example_env ''member'' (Inl Error)) (Num 136817688) (- 1001) empty_world
     = (empty_world, True)
   \<and> trace (fst (isAuthorizedUser (example_env ''creator'' (Inl Error)) (Num 42) (- 1001)
                   empty_world))
     = [GetChatMember (- 1001) (Num 42)]
   \<and> snd (isAuthorizedUser (example_env ''creator'' (Inl Error)) (Num 42) (- 1001) empty_world)
   \<and> \<not> snd (isAuthorizedUser (example_env ''member'' (Inl Error)) (Num 42) (- 1001) empty_world)"
  using isAuthorizedUser_decision
          [of "Num 136817688" "example_env ''member'' (Inl Error)" "- 1001" empty_world]
    isAuthorizedUser_decision [of "Num 42" "example_env ''creator'' (Inl Error)" "- 1001" empty_world]
    isAuthorizedUser_decision [of "Num 42" "example_env ''member'' (Inl Error)" "- 1001" empty_world]
  by (simp add: SPECIAL_ANONYMOUS_IDS_def example_env_def emit_def empty_world_def)

section \<open>Rules store adapter\<close>

text \<open>
  C8. For every chat ID, \<open>getRulesCreatedDate\<close> returns \<^verbatim>\<open>null\<close> when the store read throws;
  otherwise it returns \<^verbatim>\<open>null\<close> when nothing (or the empty text) is stored and else the
  stored text parsed by \<^verbatim>\<open>parseInt\<close> with radix 10, so that the decimal text of a number
  \<open>n\<close> written by \<open>setCustomRules\<close> is read back as the Number \<open>n\<close> (the integer \<open>n\<close> itself
  below \<open>2 ^ 53\<close>, as every time value is); a stored text that does not parse gives no
  integer (the value is \<^verbatim>\<open>NaN\<close>), which the report handler treats as no timestamp.
\<close>

theorem getRulesCreatedDate_parses:
  "(rejects e (RedisGet (Group_rules_created chatId)) \<longrightarrow>
      snd (getRulesCreatedDate e chatId w) = None)
   \<and> (\<not> rejects e (RedisGet (Group_rules_created chatId)) \<longrightarrow>
        snd (getRulesCreatedDate e chatId w) =
          (case kv w (Group_rules_created chatId) of
             None \<Rightarrow> None
           | Some s \<Rightarrow> if s = [] then None else Some (parseInt s 10)))
   \<and> (\<not> rejects e (RedisGet (Group_rules_created chatId)) \<longrightarrow>
        kv w (Group_rules_created chatId) = Some (toString n) \<longrightarrow>
        snd (getRulesCreatedDate e chatId w) = Some (number_of False n)
        \<and> (n < 2 ^ 53 \<longrightarrow> snd (getRulesCreatedDate e chatId w) = Some (Num (int n))))
   \<and> (\<not> rejects e (RedisGet (Group_rules_created chatId)) \<longrightarrow>
        kv w (Group_rules_created chatId) = Some s \<longrightarrow> parseInt s 10 = NaN \<longrightarrow>
        no_integer (snd (getRulesCreatedDate e chatId w))
        \<and> \<not> predates messageDate (snd (getRulesCreatedDate e chatId w)))"
proof -
  have "toString n \<noteq> []" using toString_digits [of n] by simp
  then show ?thesis
    by (simp add: getRulesCreatedDate_def redis_get_def parseInt_toString number_of_exact
          no_integer_def predates_def split: option.splits)
qed

theorem getRulesCreatedDate_parses_witness:
  "snd (getRulesCreatedDate (example_env ''member'' (Inl Error)) (- 1001)
          (stored_world (- 1001) ''No spam, no links, tech only'' ''1700000000''))
     = Some (Num 1700000000)
   \<and> snd (getRulesCreatedDate (example_env ''member'' (Inl Error)) (- 1001)
          (stored_world (- 1001) ''No spam, no links, tech only'' ''soon''))
     = Some NaN
   \<and> snd (getRulesCreatedDate
            ((example_env ''member'' (Inl Error))\<lparr>rejects := (\<lambda>c. c = RedisGet (Group_rules_created (- 1001)))\<rparr>)
            (- 1001) (stored_world (- 1001) ''No spam, no links, tech only'' ''1700000000''))
     = None"
proof -
  have b: "parseInt ''soon'' 10 = NaN"
    by (simp add: parseInt_def trimStart_def is_ws_def is_digit_def digit_val_def
          lower_letters_def upper_letters_def)
  show ?thesis
    using getRulesCreatedDate_parses
            [of "example_env ''member'' (Inl Error)" "- 1001"
                "stored_world (- 1001) ''No spam, no links, tech only'' ''1700000000''" 0 "[]" 0]
      getRulesCreatedDate_parses
            [of "example_env ''member'' (Inl Error)" "- 1001"
                "stored_world (- 1001) ''No spam, no links, tech only'' ''soon''" 0 "''soon''" 0]
      getRulesCreatedDate_parses
            [of "(example_env ''member'' (Inl Error))\<lparr>rejects := (\<lambda>c. c = RedisGet (Group_rules_created (- 1001)))\<rparr>"
                "- 1001"
                "stored_world (- 1001) ''No spam, no links, tech only'' ''1700000000''" 0 "[]" 0]
    by (simp add: example_env_def stored_world_def parseInt_1700000000 b)
qed

text \<open>
  The argument of \<open>setCustomRules\<close>. Its only caller is the \<^verbatim>\<open>/rules set\<close> branch, which
  passes \<open>trim x\<close> for the text \<open>x\<close> that follows the subcommand (line 145), and an argument
  that is already trimmed is stored as it is and measured at its trimmed length.
\<close>

lemma rules_set_short:
  assumes "length (trim (join '' '' (drop 1 args))) < 20"
  shows "rules_set e chatId args w =
     (if trim (join '' '' (drop 1 args)) = [] then reply e RulesSetUsage w
      else reply e RulesSetFailed w)"
  using assms by (simp add: rules_set_def setCustomRules_def trim_idem Let_def)

text \<open>
  C4. For every input text whose trimmed length is shorter than 20 characters,
  \<open>setCustomRules\<close>, called as the handler calls it, returns the failure result and makes
  no store call: the world, with any rule text and creation time stored before, is
  unchanged. So is the store after the whole \<^verbatim>\<open>/rules set\<close> command on such a text, which
  makes no store write.
\<close>

theorem setCustomRules_rejects_short:
  assumes "length (trim x) < 20"
  shows "setCustomRules e chatId (trim x) w = (w, None)
    \<and> (chat_type c = ''supergroup'' \<longrightarrow> rules_args (message_text c) = a # rest \<longrightarrow>
         toLowerCase a = ''set'' \<longrightarrow> join '' '' rest = x \<longrightarrow>
         kv (fst (rules_command e c w)) = kv w
         \<and> \<not> list_ex is_store_write (new_calls w (fst (rules_command e c w))))"
proof -
  have a: "setCustomRules e chatId (trim x) w = (w, None)"
    using assms by (simp add: setCustomRules_def trim_idem)
  have b: "kv (fst (rules_command e c w)) = kv w
         \<and> \<not> list_ex is_store_write (new_calls w (fst (rules_command e c w)))"
    if "chat_type c = ''supergroup''" "rules_args (message_text c) = a # rest"
       "toLowerCase a = ''set''" "join '' '' rest = x"
  proof -
    have short: "length (trim (join '' '' (drop 1 (a # rest)))) < 20"
      using assms that by simp
    show ?thesis
      using that
      by (simp add: rules_command_def rules_set_short [OF short] reply_eq isAuthorizedUser_def
            getChatMember_def truthy_def new_calls_def Let_def split: sum.splits)
  qed
  from a b show ?thesis by blast
qed

theorem setCustomRules_rejects_short_witness:
  "length (trim ''no spam'') < 20
   \<and> setCustomRules (example_env ''member'' (Inl Error)) (- 1001) (trim ''no spam'')
         (stored_world (- 1001) ''No spam, no links, tech only'' ''1700000000'')
       = (stored_world (- 1001) ''No spam, no links, tech only'' ''1700000000'', None)
   \<and> rules_args ''/rules set no spam'' = [''set'', ''no'', ''spam'']
   \<and> kv (fst (rules_command (example_env ''member'' (Inl Error))
                 (example_ctx (Num 1087968824) ''/rules set no spam'' None)
                 (stored_world (- 1001) ''No spam, no links, tech only'' ''1700000000'')))
       = kv (stored_world (- 1001) ''No spam, no links, tech only'' ''1700000000'')"
proof -
  have t: "trim ''no spam'' = ''no spam''"
    by (simp add: trim_def is_ws_def)
  have args: "rules_args ''/rules set no spam'' = [''set'', ''no'', ''spam'']"
    by (simp add: rules_args_def replace_def trim_def is_ws_def)
  have low: "toLowerCase ''set'' = ''set''"
    by (simp add: toLowerCase_def upper_letters_def lower_letters_def latin1_upper_def
          latin1_lower_def)
  show ?thesis
    using setCustomRules_rejects_short
            [of "''no spam''" "example_env ''member'' (Inl Error)" "- 1001"
                "stored_world (- 1001) ''No spam, no links, tech only'' ''1700000000''"
                "example_ctx (Num 1087968824) ''/rules set no spam'' None" "''set''"
                "[''no'', ''spam'']"]
    by (simp add: t args low example_ctx_def)
qed

text \<open>
  C5. For every chat ID and every rule text that \<open>setCustomRules\<close>, called as the handler
  calls it, accepts, \<open>setCustomRules\<close> followed by \<open>getSimpleRules\<close> returns exactly the
  trimmed input text, and the two deletions of \<^verbatim>\<open>/rules reset\<close> followed by \<open>getSimpleRules\<close>
  return absent. Where the store rejects the read, \<open>getSimpleRules\<close> returns absent; where it
  rejects the deletion of the rule text, the read returns what it returned before.
\<close>

theorem set_get_reset_roundtrip:
  "(snd (setCustomRules e chatId (trim x) w) \<noteq> None \<longrightarrow>
      snd (getSimpleRules e chatId (fst (setCustomRules e chatId (trim x) w))) =
        (if rejects e (RedisGet (Group_simple_rules chatId)) then None else Some (trim x)))
   \<and> snd (getSimpleRules e chatId (fst (resetRules e chatId w))) =
        (if rejects e (RedisDel (Group_simple_rules chatId))
         then snd (getSimpleRules e chatId w) else None)"
proof -
  have "trim x \<noteq> []" if "\<not> length (trim x) < 20"
    using that by auto
  then show ?thesis
    by (simp add: setCustomRules_def resetRules_def getSimpleRules_def redis_set_def redis_get_def
          redis_del_def emit_def truthy_def trim_idem Let_def)
qed

theorem set_get_reset_roundtrip_witness:
  "snd (getSimpleRules (example_env ''member'' (Inl Error)) (- 1001)
          (fst (setCustomRules (example_env ''member'' (Inl Error)) (- 1001)
                  (trim ''  No spam, no links, tech only '') empty_world)))
     = Some ''No spam, no links, tech only''
   \<and> snd (getSimpleRules (example_env ''member'' (Inl Error)) (- 1001)
          (fst (resetRules (example_env ''member'' (Inl Error)) (- 1001)
                  (stored_world (- 1001) ''No spam, no links, tech only'' ''1700000000''))))
     = None"
proof -
  have t: "trim ''  No spam, no links, tech only '' = ''No spam, no links, tech only''"
    by (simp add: trim_def is_ws_def)
  have acc: "snd (setCustomRules (example_env ''member'' (Inl Error)) (- 1001)
                  ''No spam, no links, tech only'' empty_world) \<noteq> None"
    by (simp add: setCustomRules_def redis_set_def example_env_def Let_def)
  show ?thesis
    using set_get_reset_roundtrip
            [of "example_env ''member'' (Inl Error)" "- 1001" "''  No spam, no links, tech only ''"
                empty_world]
      set_get_reset_roundtrip
            [of "example_env ''member'' (Inl Error)" "- 1001" "[]"
                "stored_world (- 1001) ''No spam, no links, tech only'' ''1700000000''"]
      acc
    by (simp add: t example_env_def)
qed

section \<open>The unmute command\<close>

lemma number_of_not_NaN: "number_of neg n \<noteq> NaN"
  by (simp add: number_of_def split: option.splits)

text \<open>
  C9 (amended). For every \<^verbatim>\<open>/unmute\<close> invocation in a supergroup whose argument begins with
  decimal digits followed by a character that is no digit, and does not begin with \<^verbatim>\<open>0x\<close> or
  \<^verbatim>\<open>0X\<close>, the argument passes validation and the usage message is not sent; the user ID is
  the Number for the numeric prefix, which is the prefix itself when that is below \<open>2 ^ 53\<close>
  and the nearest double otherwise; when the invoker passes the authorization check, the
  command goes on to restrict (lift the restrictions of) the user with that ID.
\<close>

theorem unmute_numeric_prefix:
  assumes "chat_type c = ''supergroup''"
    and "unmute_arg (message_text c) = Some (ds @ rest)"
    and "ds \<noteq> []" and "\<forall>ch\<in>set ds. is_digit 10 ch"
    and "rest \<noteq> []" and "\<not> is_digit 10 (hd rest)"
    and "take 2 (ds @ rest) \<noteq> ''0x''" and "take 2 (ds @ rest) \<noteq> ''0X''"
  shows "parseInt (ds @ rest) 0 = number_of False (digits_value 10 ds)
    \<and> (digits_value 10 ds < 2 ^ 53 \<longrightarrow> parseInt (ds @ rest) 0 = Num (int (digits_value 10 ds)))
    \<and> Reply UnmuteUsage \<notin> set (new_calls w (fst (unmute_command e c w)))
    \<and> (snd (isAuthorizedUser e (from_id c) (chat c) w) \<longrightarrow>
          RestrictChatMember (chat c) (parseInt (ds @ rest) 0) AllowSending
            \<in> set (new_calls w (fst (unmute_command e c w))))"
proof -
  have p: "parseInt (ds @ rest) 0 = number_of False (digits_value 10 ds)"
    using assms by (intro parseInt_decimal_prefix) simp_all
  have ne: "ds @ rest \<noteq> []" using assms by simp
  have run: "Reply UnmuteUsage \<notin> set (new_calls w (fst (unmute_command e c w)))
    \<and> (snd (isAuthorizedUser e (from_id c) (chat c) w) \<longrightarrow>
          RestrictChatMember (chat c) (number_of False (digits_value 10 ds)) AllowSending
            \<in> set (new_calls w (fst (unmute_command e c w))))"
    using assms(1,2) ne
    by (simp add: p number_of_not_NaN unmute_command_def isNaN_def reply_eq isAuthorizedUser_def
          getChatMember_def telegram_def new_calls_def emit_def Let_def split: sum.splits)
  show ?thesis
    using run by (simp add: p number_of_exact)
qed

lemma unmute_arg_123abc: "unmute_arg ''/unmute 123abc'' = Some ''123abc''"
  by (simp add: unmute_arg_def replace_def trim_def is_ws_def)

lemma unmute_arg_0xg: "unmute_arg ''/unmute 0xg'' = Some ''0xg''"
  by (simp add: unmute_arg_def replace_def trim_def is_ws_def)

theorem unmute_numeric_prefix_witness:
  "unmute_arg ''/unmute 123abc'' = Some (''123'' @ ''abc'')
   \<and> new_calls empty_world
        (fst (unmute_command (example_env ''member'' (Inl Error))
                (example_ctx (Num 1087968824) ''/unmute 123abc'' None) empty_world))
      = [RestrictChatMember (- 1001) (Num 123) AllowSending, GetChatMember (- 1001) (Num 123),
         Reply (Unmuted (UserIdOnly (Num 123)))]"
proof -
  have v: "digits_value 10 ''123'' = 123"
    by (simp add: digits_value_def digit_val_def)
  have "parseInt (''123'' @ ''abc'') 0 = number_of False (digits_value 10 ''123'')"
    by (rule unmute_numeric_prefix
              [of "example_ctx (Num 1087968824) ''/unmute 123abc'' None" "''123''" "''abc''"
                  empty_world "example_env ''member'' (Inl Error)", THEN conjunct1])
       (simp_all add: example_ctx_def unmute_arg_123abc is_digit_10)
  then have p: "parseInt ''123abc'' 0 = Num 123"
    by (simp add: v number_of_def to_double_def)
  show ?thesis
    by (simp add: unmute_arg_123abc unmute_command_def example_ctx_def p isNaN_def
          isAuthorizedUser_def SPECIAL_ANONYMOUS_IDS_def telegram_def getChatMember_def
          example_env_def unmute_display_of_def truthy_def new_calls_def emit_def empty_world_def
          Let_def)
qed

text \<open>
  As stated, C9 covers every argument that begins with decimal digits followed by
  characters that are no digits, and takes the numeric prefix for the user.
  \<^verbatim>\<open>parseInt\<close> is called without a radix (lines 173 and 174), so an argument that begins
  with \<^verbatim>\<open>0x\<close> is read as hexadecimal: \<^verbatim>\<open>0xg\<close> has no hexadecimal digit after the prefix, is
  \<^verbatim>\<open>NaN\<close>, and an authorized invoker gets the usage message. And the result of \<^verbatim>\<open>parseInt\<close> is a
  double: for the prefix \<open>2 ^ 53 + 1\<close> the command restricts the user \<open>2 ^ 53\<close>. The
  restriction also comes after two guards (lines 169 and 176): an invoker who is no
  administrator, and a chat that is no supergroup, get a notice and no restriction.
\<close>

lemma bit_length_example: "bit_length 9007199254740993 = 54"
  by (simp add: bit_length.simps)

lemma parseInt_rounds: "parseInt ''9007199254740993abc'' 0 = Num 9007199254740992"
  by (simp add: parseInt_def number_of_def to_double_def bit_length_example trimStart_def
        is_ws_def is_digit_def digit_val_def digits_value_def lower_letters_def upper_letters_def
        Let_def)

theorem unmute_hex_prefix_counterexample:
  "unmute_arg ''/unmute 0xg'' = Some (''0'' @ ''xg'')
   \<and> is_digit 10 (CHR ''0'') \<and> \<not> is_digit 10 (CHR ''x'')
   \<and> snd (isAuthorizedUser (example_env ''member'' (Inl Error)) (Num 1087968824) (- 1001)
            empty_world)
   \<and> new_calls empty_world
        (fst (unmute_command (example_env ''member'' (Inl Error))
                (example_ctx (Num 1087968824) ''/unmute 0xg'' None) empty_world))
      = [Reply UnmuteUsage]
   \<and> unmute_arg ''/unmute 9007199254740993abc'' = Some (''9007199254740993'' @ ''abc'')
   \<and> digits_value 10 ''9007199254740993'' = 9007199254740993
   \<and> new_calls empty_world
        (fst (unmute_command (example_env ''member'' (Inl Error))
                (example_ctx (Num 1087968824) ''/unmute 9007199254740993abc'' None) empty_world))
      = [RestrictChatMember (- 1001) (Num 9007199254740992) AllowSending,
         GetChatMember (- 1001) (Num 9007199254740992),
         Reply (Unmuted (UserIdOnly (Num 9007199254740992)))]
   \<and> new_calls empty_world
        (fst (unmute_command (example_env ''member'' (Inl Error))
                (example_ctx (Num 7) ''/unmute 123abc'' None) empty_world))
      = [GetChatMember (- 1001) (Num 7), Reply OnlyAdminsUnmute]
   \<and> new_calls empty_world
        (fst (unmute_command (example_env ''member'' (Inl Error))
                ((example_ctx (Num 1087968824) ''/unmute 123abc'' None)\<lparr>chat_type := ''group''\<rparr>)
                empty_world))
      = [Reply GroupsOnly]"
proof -
  have p: "parseInt ''0xg'' 0 = NaN"
    by (simp add: parseInt_def trimStart_def is_ws_def is_digit_def digit_val_def
          lower_letters_def upper_letters_def)
  have a: "unmute_arg ''/unmute 9007199254740993abc'' = Some ''9007199254740993abc''"
    by (simp add: unmute_arg_def replace_def trim_def is_ws_def)
  have v: "digits_value 10 ''9007199254740993'' = 9007199254740993"
    by (simp add: digits_value_def digit_val_def)
  have q: "parseInt ''123abc'' 0 = Num 123"
    by (simp add: parseInt_def number_of_def to_double_def trimStart_def is_ws_def is_digit_def
          digit_val_def digits_value_def lower_letters_def upper_letters_def Let_def)
  show ?thesis
    by (simp add: unmute_arg_0xg unmute_arg_123abc a v unmute_command_def example_ctx_def p q
          parseInt_rounds is_admin_status_def isNaN_def reply_eq isAuthorizedUser_def
          SPECIAL_ANONYMOUS_IDS_def is_digit_10 telegram_def getChatMember_def example_env_def
          unmute_display_of_def truthy_def empty_world_def new_calls_def emit_def Let_def)
qed

text \<open>With hexadecimal digits after the prefix the argument passes, as a hexadecimal number.\<close>

lemma parseInt_hex_example: "parseInt ''0x1F'' 0 = Num 31"
  by (simp add: parseInt_def number_of_def to_double_def trimStart_def is_ws_def is_digit_def
        digit_val_def digits_value_def lower_letters_def upper_letters_def)

section \<open>The report workflow\<close>

text \<open>
  C2. For every report invocation where the sender of the replied-to message is in the
  fixed list of anonymous senders, or where the membership lookup for that sender returns
  the status \<open>administrator\<close> or \<open>creator\<close>, the handler ends with one reply: the calls it
  makes are at most the membership lookup and then that reply (the notice that moderation
  is skipped, once the chat is a supergroup and the message has text, a caption or a
  photo). No inference call is made and neither the delete-message nor the restrict-member
  call is made; the handler completes unless the platform rejects the reply itself.
\<close>

theorem report_skips_exempt_sender:
  assumes "reply_to_message c = Some r"
    and "sender_id (msg_from r) \<in> set SPECIAL_ANONYMOUS_IDS
         \<or> (\<exists>m. chat_member e (chat c) (sender_id (msg_from r)) = Inr m
                \<and> (status m = ''administrator'' \<or> status m = ''creator''))"
  shows "new_calls w (fst (report_command e c w)) =
     (if chat_type c \<noteq> ''supergroup'' then [Reply GroupsOnly]
      else if message_text_of r = [] \<and> photo r = None then [Reply NothingToAnalyze]
      else (if sender_id (msg_from r) \<in> set SPECIAL_ANONYMOUS_IDS then []
            else [GetChatMember (chat c) (sender_id (msg_from r))])
           @ [Reply (ModerationSkipped
                       (UserInfo (user_display (msg_from r)) (sender_id (msg_from r))))])
    \<and> \<not> list_ex is_inference (new_calls w (fst (report_command e c w)))
    \<and> \<not> list_ex is_enforcement (new_calls w (fst (report_command e c w)))
    \<and> snd (report_command e c w) =
        (if rejects e (last (new_calls w (fst (report_command e c w)))) then Thrown else Done)"
  using assms
  by (auto simp: report_command_def reply_eq reported_user_authorized_def getChatMember_def
        is_admin_status_def Let_def)

theorem report_skips_exempt_sender_witness:
  "new_calls (stored_world (- 1001) ''No spam, no links, tech only'' ''1600000000'')
     (fst (report_command (example_env ''administrator'' (Inr (Some ''YES'')))
             (example_ctx (Num 7) ''/report'' (Some (example_message (Num 42) 1650000000)))
             (stored_world (- 1001) ''No spam, no links, tech only'' ''1600000000'')))
     = [GetChatMember (- 1001) (Num 42), Reply (ModerationSkipped (UserInfo ''@alice'' (Num 42)))]
   \<and> new_calls (stored_world (- 1001) ''No spam, no links, tech only'' ''1600000000'')
     (fst (report_command (example_env ''member'' (Inr (Some ''YES'')))
             (example_ctx (Num 7) ''/report'' (Some (example_message (Num 1087968824) 1650000000)))
             (stored_world (- 1001) ''No spam, no links, tech only'' ''1600000000'')))
     = [Reply (ModerationSkipped (UserInfo ''@alice'' (Num 1087968824)))]
   \<and> snd (report_command (example_env ''administrator'' (Inr (Some ''YES'')))
             (example_ctx (Num 7) ''/report'' (Some (example_message (Num 42) 1650000000)))
             (stored_world (- 1001) ''No spam, no links, tech only'' ''1600000000'')) = Done"
  using report_skips_exempt_sender
          [of "example_ctx (Num 7) ''/report'' (Some (example_message (Num 42) 1650000000))"
              "example_message (Num 42) 1650000000" "example_env ''administrator'' (Inr (Some ''YES''))"
              "stored_world (- 1001) ''No spam, no links, tech only'' ''1600000000''"]
    report_skips_exempt_sender
          [of "example_ctx (Num 7) ''/report'' (Some (example_message (Num 1087968824) 1650000000))"
              "example_message (Num 1087968824) 1650000000" "example_env ''member'' (Inr (Some ''YES''))"
              "stored_world (- 1001) ''No spam, no links, tech only'' ''1600000000''"]
  by (simp add: example_ctx_def example_message_def example_env_def SPECIAL_ANONYMOUS_IDS_def
        message_text_of_def truthy_def or_empty_def user_display_def)

text \<open>
  C3 (amended). For every report invocation where a rule-creation timestamp is stored and
  read, and the replied-to message was sent strictly earlier, the inference client is never
  invoked; and when the invocation reaches the rules check (supergroup, a message with
  content, a sender who is not exempt, the status message posted, a rule text stored and
  read), the handler aborts with the notice that the message predates the rules, with no
  enforcement call.
\<close>

theorem report_predates_rules:
  assumes "reply_to_message c = Some r"
    and "\<not> rejects e (RedisGet (Group_rules_created (chat c)))"
    and "kv w (Group_rules_created (chat c)) = Some s"
    and "parseInt s 10 = Num ts"
    and "int (msg_date r) < ts"
  shows "\<not> list_ex is_inference (new_calls w (fst (report_command e c w)))
    \<and> (chat_type c = ''supergroup'' \<longrightarrow>
         (message_text_of r \<noteq> [] \<or> photo r \<noteq> None) \<longrightarrow>
         \<not> snd (reported_user_authorized e (chat c) (sender_id (msg_from r)) w) \<longrightarrow>
         \<not> rejects e (Reply Analyzing) \<longrightarrow>
         \<not> rejects e (RedisGet (Group_simple_rules (chat c))) \<longrightarrow>
         truthy (kv w (Group_simple_rules (chat c))) \<longrightarrow>
         new_calls w (fst (report_command e c w)) =
           new_calls w (fst (reported_user_authorized e (chat c) (sender_id (msg_from r)) w))
           @ [Reply Analyzing, RedisGet (Group_simple_rules (chat c)),
              RedisGet (Group_rules_created (chat c)), EditMessageText PredatesRules]
           @ (if rejects e (EditMessageText PredatesRules) then [EditMessageText AnalysisFailed]
              else [])
         \<and> \<not> list_ex is_enforcement (new_calls w (fst (report_command e c w))))"
  using assms
  by (auto simp: report_command_def reply_eq reported_user_authorized_def getChatMember_def
        telegram_def analyze_predates editMessageText_eq new_calls_def Let_def moderate_def
        split: sum.splits)

theorem report_predates_rules_witness:
  "new_calls (stored_world (- 1001) ''No spam, no links, tech only'' ''1700000000'')
     (fst (report_command (example_env ''member'' (Inr (Some ''YES'')))
             (example_ctx (Num 7) ''/report'' (Some (example_message (Num 42) 1650000000)))
             (stored_world (- 1001) ''No spam, no links, tech only'' ''1700000000'')))
     = [GetChatMember (- 1001) (Num 42), Reply Analyzing, RedisGet (Group_simple_rules (- 1001)),
        RedisGet (Group_rules_created (- 1001)), EditMessageText PredatesRules]"
  using report_predates_rules
          [of "example_ctx (Num 7) ''/report'' (Some (example_message (Num 42) 1650000000))"
              "example_message (Num 42) 1650000000" "example_env ''member'' (Inr (Some ''YES''))"
              "stored_world (- 1001) ''No spam, no links, tech only'' ''1700000000''"
              "''1700000000''" 1700000000]
  by (simp add: parseInt_1700000000 example_ctx_def example_message_def example_env_def
        stored_world_def SPECIAL_ANONYMOUS_IDS_def message_text_of_def truthy_def or_empty_def
        reported_user_authorized_def getChatMember_def is_admin_status_def new_calls_def emit_def)

text \<open>
  As stated, C3 promises the notice for every report of an older message. The exemption
  check comes first (lines 211 to 220): for an administrator's older message the handler
  replies that moderation is skipped and never reaches the rules check.
\<close>

theorem report_predates_exempt_counterexample:
  "kv (stored_world (- 1001) ''No spam, no links, tech only'' ''1700000000'')
      (Group_rules_created (- 1001)) = Some ''1700000000''
   \<and> parseInt ''1700000000'' 10 = Num 1700000000
   \<and> int (msg_date (example_message (Num 42) 1650000000)) < 1700000000
   \<and> new_calls (stored_world (- 1001) ''No spam, no links, tech only'' ''1700000000'')
     (fst (report_command (example_env ''administrator'' (Inr (Some ''YES'')))
             (example_ctx (Num 7) ''/report'' (Some (example_message (Num 42) 1650000000)))
             (stored_world (- 1001) ''No spam, no links, tech only'' ''1700000000'')))
     = [GetChatMember (- 1001) (Num 42), Reply (ModerationSkipped (UserInfo ''@alice'' (Num 42)))]"
  by (simp add: parseInt_1700000000 report_run)

text \<open>
  C6. For every inference call that fails (a timeout or any transport or HTTP error makes
  \<^verbatim>\<open>axios.post\<close> throw), \<open>callHuggingFace\<close> returns \<open>violates = False\<close> with the reason
  \<open>Analysis unavailable\<close>; and a report workflow whose inference call fails still completes:
  its last two calls are the inference request and the edit that publishes
  \<open>All good: Analysis unavailable\<close>, it does not publish the failure notice, it makes no
  enforcement call, and it ends normally unless the platform rejects that edit.
\<close>

theorem inference_failure_fails_closed:
  assumes "hf_response e msgs = Inl err"
  shows "snd (callHuggingFace e msgs w') = \<lparr>violates = False, reason = ''Analysis unavailable''\<rparr>
    \<and> (HfPost msgs \<in> set (new_calls w (fst (report_command e c w))) \<longrightarrow>
         take 2 (rev (new_calls w (fst (report_command e c w))))
           = [EditMessageText (AllGood ''Analysis unavailable''), HfPost msgs]
         \<and> \<not> list_ex is_enforcement (new_calls w (fst (report_command e c w)))
         \<and> EditMessageText AnalysisFailed \<notin> set (new_calls w (fst (report_command e c w)))
         \<and> snd (report_command e c w) =
             (if rejects e (EditMessageText (AllGood ''Analysis unavailable'')) then Thrown
              else Done))"
proof -
  have a: "snd (callHuggingFace e msgs w') = \<lparr>violates = False, reason = ''Analysis unavailable''\<rparr>"
    using assms by (simp add: callHuggingFace_def)
  have b: "HfPost msgs \<in> set (new_calls w (fst (report_command e c w))) \<longrightarrow>
         take 2 (rev (new_calls w (fst (report_command e c w))))
           = [EditMessageText (AllGood ''Analysis unavailable''), HfPost msgs]
         \<and> \<not> list_ex is_enforcement (new_calls w (fst (report_command e c w)))
         \<and> EditMessageText AnalysisFailed \<notin> set (new_calls w (fst (report_command e c w)))
         \<and> snd (report_command e c w) =
             (if rejects e (EditMessageText (AllGood ''Analysis unavailable'')) then Thrown
              else Done)"
  proof (cases "reply_to_message c")
    case None
    then show ?thesis by (simp add: report_command_def reply_eq)
  next
    case (Some r)
    let ?uid = "sender_id (msg_from r)"
    let ?ui = "UserInfo (user_display (msg_from r)) ?uid"
    obtain xs where xs: "trace (fst (moderate e (chat c) r ?ui w)) = trace w @ xs"
      "\<forall>m. HfPost m \<in> set xs \<longrightarrow> (\<exists>x. hf_response e m = Inl x) \<longrightarrow>
           take 2 (rev xs) = [EditMessageText (AllGood ''Analysis unavailable''), HfPost m]
           \<and> \<not> list_ex is_enforcement xs
           \<and> EditMessageText AnalysisFailed \<notin> set xs
           \<and> snd (moderate e (chat c) r ?ui w) =
               (if rejects e (EditMessageText (AllGood ''Analysis unavailable'')) then Thrown
                else Done)"
      using moderate_trace [of e "chat c" r ?ui w] by blast
    let ?w1 = "emit (GetChatMember (chat c) ?uid) w"
    obtain ys where ys: "trace (fst (moderate e (chat c) r ?ui ?w1)) = trace ?w1 @ ys"
      "\<forall>m. HfPost m \<in> set ys \<longrightarrow> (\<exists>x. hf_response e m = Inl x) \<longrightarrow>
           take 2 (rev ys) = [EditMessageText (AllGood ''Analysis unavailable''), HfPost m]
           \<and> \<not> list_ex is_enforcement ys
           \<and> EditMessageText AnalysisFailed \<notin> set ys
           \<and> snd (moderate e (chat c) r ?ui ?w1) =
               (if rejects e (EditMessageText (AllGood ''Analysis unavailable'')) then Thrown
                else Done)"
      using moderate_trace [of e "chat c" r ?ui ?w1] by blast
    have xm: "HfPost msgs \<in> set xs \<Longrightarrow>
           take 2 (rev xs) = [EditMessageText (AllGood ''Analysis unavailable''), HfPost msgs]
           \<and> \<not> list_ex is_enforcement xs
           \<and> EditMessageText AnalysisFailed \<notin> set xs
           \<and> snd (moderate e (chat c) r ?ui w) =
               (if rejects e (EditMessageText (AllGood ''Analysis unavailable'')) then Thrown
                else Done)"
      using xs(2) assms by blast
    have ym: "HfPost msgs \<in> set ys \<Longrightarrow>
           take 2 (rev ys @ [GetChatMember (chat c) ?uid])
             = [EditMessageText (AllGood ''Analysis unavailable''), HfPost msgs]
           \<and> \<not> list_ex is_enforcement ys
           \<and> EditMessageText AnalysisFailed \<notin> set ys
           \<and> snd (moderate e (chat c) r ?ui ?w1) =
               (if rejects e (EditMessageText (AllGood ''Analysis unavailable'')) then Thrown
                else Done)"
      using ys(2) assms take2_append [of "rev ys"] by blast
    show ?thesis
      using Some xs(1) ys(1) xm ym
      by (auto simp: report_command_def reply_eq reported_user_authorized_def getChatMember_def
            new_calls_def Let_def split: sum.splits)
  qed
  from a b show ?thesis by simp
qed

theorem inference_failure_fails_closed_witness:
  "hf_response (example_env ''member'' (Inl Error)) example_request = Inl Error
   \<and> new_calls (stored_world (- 1001) ''No spam, no links, tech only'' ''1600000000'')
     (fst (report_command (example_env ''member'' (Inl Error))
             (example_ctx (Num 7) ''/report'' (Some (example_message (Num 42) 1650000000)))
             (stored_world (- 1001) ''No spam, no links, tech only'' ''1600000000'')))
     = [GetChatMember (- 1001) (Num 42), Reply Analyzing, RedisGet (Group_simple_rules (- 1001)),
        RedisGet (Group_rules_created (- 1001)), HfPost example_request,
        EditMessageText (AllGood ''Analysis unavailable'')]
   \<and> snd (report_command (example_env ''member'' (Inl Error))
             (example_ctx (Num 7) ''/report'' (Some (example_message (Num 42) 1650000000)))
             (stored_world (- 1001) ''No spam, no links, tech only'' ''1600000000'')) = Done"
proof -
  have run: "new_calls (stored_world (- 1001) ''No spam, no links, tech only'' ''1600000000'')
     (fst (report_command (example_env ''member'' (Inl Error))
             (example_ctx (Num 7) ''/report'' (Some (example_message (Num 42) 1650000000)))
             (stored_world (- 1001) ''No spam, no links, tech only'' ''1600000000'')))
     = [GetChatMember (- 1001) (Num 42), Reply Analyzing, RedisGet (Group_simple_rules (- 1001)),
        RedisGet (Group_rules_created (- 1001)), HfPost example_request,
        EditMessageText (AllGood ''Analysis unavailable'')]"
    by (simp add: parseInt_1600000000 report_run example_request_def)
  have hf: "hf_response (example_env ''member'' (Inl Error)) example_request = Inl Error"
    by (simp add: example_env_def)
  have rj: "\<not> rejects (example_env ''member'' (Inl Error))
               (EditMessageText (AllGood ''Analysis unavailable''))"
    by (simp add: example_env_def)
  show ?thesis
    using inference_failure_fails_closed
            [OF hf, of empty_world
                "stored_world (- 1001) ''No spam, no links, tech only'' ''1600000000''"
                "example_ctx (Num 7) ''/report'' (Some (example_message (Num 42) 1650000000))"]
      run hf rj
    by simp
qed

end
